theory Spec2Isabelle
  imports Complex_Main "HOL-Library.Sublist" "HOL-Library.Product_Lexorder"
begin

section \<open>Data model of \<open>src/app/flip-radar/page.tsx\<close>\<close>

text \<open>
  The TypeScript types \<open>BuyerType\<close>, \<open>Buyer\<close>, \<open>Property\<close>, \<open>BuyerEvent\<close> and
  \<open>ResultRow\<close>. Field names carry a prefix because all three reference types
  have a field \<open>id\<close>. A JavaScript \<open>number\<close> that holds a price, a coordinate or a
  distance is an exact \<open>real\<close> (rounding of IEEE doubles is not modelled); counts
  and time values are integers. The query parameter \<open>BuyerType | "all"\<close> is
  \<open>BuyerFilter\<close>.
\<close>

datatype BuyerType = Flipper | Landlord | Cash | Unknown

datatype BuyerFilter = All | Only BuyerType

datatype EventType = Purchase | Sale

datatype Source = County | Mls | Manual

record Contact =
  phone :: "string option"
  email :: "string option"

record Buyer =
  b_id :: string
  b_name :: string
  b_buyer_type :: BuyerType
  b_contacts :: "Contact list"

record Property =
  p_id :: string
  p_addr1 :: string
  p_city :: string
  p_state :: string
  p_zip :: string
  p_lat :: real
  p_lon :: real

text \<open>
  \<open>event_date\<close> is an ISO date-only string \<open>YYYY-MM-DD\<close> in the source; it is
  held here as its three numeric fields.
\<close>

record IsoDate =
  iso_year :: int
  iso_month :: int
  iso_day :: int

record BuyerEvent =
  e_id :: string
  e_buyer_id :: string
  e_property_id :: string
  e_event_type :: EventType
  e_event_date :: IsoDate
  e_price :: real
  e_source :: Source

record LatLon =
  ll_lat :: real
  ll_lon :: real

text \<open>
  The only failure the code can raise: reading a field of \<open>undefined\<close> (the
  non-null assertions \<open>!\<close> after \<open>find\<close> are erased at run time).
\<close>

datatype error = TypeError

section \<open>Dates\<close>

text \<open>
  A \<open>Date\<close> is its time value: milliseconds since the epoch, or \<open>None\<close> for
  an invalid date (NaN). The day arithmetic is ECMAScript's \<open>DayFromYear\<close>,
  \<open>MakeDay\<close>, \<open>MakeDate\<close> and \<open>TimeClip\<close>.
\<close>

definition msPerDay :: int where
  "msPerDay = 86400000"

definition DayFromYear :: "int \<Rightarrow> int" where
  "DayFromYear y =
     365 * (y - 1970) + (y - 1969) div 4 - (y - 1901) div 100 + (y - 1601) div 400"

definition InLeapYear :: "int \<Rightarrow> bool" where
  "InLeapYear y = ((y mod 4 = 0 \<and> y mod 100 \<noteq> 0) \<or> y mod 400 = 0)"

definition monthStart :: "int \<Rightarrow> bool \<Rightarrow> int" where
  "monthStart mn leap =
     (if mn = 0 then 0 else if mn = 1 then 31
      else (if leap then 1 else 0) +
        (if mn = 2 then 59 else if mn = 3 then 90 else if mn = 4 then 120
         else if mn = 5 then 151 else if mn = 6 then 181 else if mn = 7 then 212
         else if mn = 8 then 243 else if mn = 9 then 273 else if mn = 10 then 304
         else 334))"

definition MakeDay :: "int \<Rightarrow> int \<Rightarrow> int \<Rightarrow> int" where
  "MakeDay year month date =
     (let ym = year + month div 12; mn = month mod 12
      in DayFromYear ym + monthStart mn (InLeapYear ym) + date - 1)"

definition MakeDate :: "int \<Rightarrow> int \<Rightarrow> int" where
  "MakeDate day time = day * msPerDay + time"

definition TimeClip :: "int \<Rightarrow> int option" where
  "TimeClip t = (if \<bar>t\<bar> > 8640000000000000 then None else Some t)"

text \<open>
  \<open>new Date(s)\<close> for a date-only string: UTC midnight of that day. The parser
  of V8, the engine of Node and of Chrome, accepts a month from 1 to 12 and a
  day from 1 to 31 and gives an invalid date otherwise; a day that the month
  lacks is carried into the next month by \<open>MakeDay\<close>.
\<close>

definition newDate :: "IsoDate \<Rightarrow> int option" where
  "newDate s =
     (if 0 \<le> iso_year s \<and> iso_year s \<le> 9999 \<and> 1 \<le> iso_month s \<and> iso_month s \<le> 12
         \<and> 1 \<le> iso_day s \<and> iso_day s \<le> 31
      then TimeClip (MakeDate (MakeDay (iso_year s) (iso_month s - 1) (iso_day s)) 0)
      else None)"

text \<open>
  \<open>new Date()\<close> reads the clock. The reading is a parameter of the model, given
  by its local-time fields (\<open>getFullYear\<close>, \<open>getMonth\<close> from 0, \<open>getDate\<close>, the
  milliseconds since local midnight) and the offset of local time from UTC.
  The offset is one number: where daylight saving changes between the reading
  and the result of \<open>setMonth\<close>, the code's result is an hour away from the
  model's.
\<close>

record Clock =
  now_year :: int
  now_month :: int
  now_date :: int
  now_time :: int
  now_tza :: int

text \<open>
  \<open>monthsAgo\<close>: \<open>d.setMonth(d.getMonth() - n)\<close> keeps the year, the day of the
  month and the time of day, lets \<open>MakeDay\<close> carry the month into the year and an
  overlong day into the next month, and clips the result to the range of time
  values. The number of months is an integer, as the two values the page
  offers are.
\<close>

definition monthsAgo :: "Clock \<Rightarrow> int \<Rightarrow> int option" where
  "monthsAgo clk n =
     TimeClip (MakeDate (MakeDay (now_year clk) (now_month clk - n) (now_date clk))
                 (now_time clk) - now_tza clk)"

text \<open>\<open>a >= b\<close> on dates compares time values and is false when one of them is NaN.\<close>

definition date_ge :: "int option \<Rightarrow> int option \<Rightarrow> bool" where
  "date_ge a b = (case a of None \<Rightarrow> False | Some x \<Rightarrow> (case b of None \<Rightarrow> False | Some y \<Rightarrow> x \<ge> y))"

section \<open>Distance\<close>

text \<open>
  \<open>distanceMiles\<close>, the haversine formula. \<open>Math.sqrt\<close> of a negative number and
  \<open>Math.asin\<close> outside \<open>[-1, 1]\<close> are NaN, here \<open>None\<close>.
\<close>

definition toRad :: "real \<Rightarrow> real" where
  "toRad x = (x * pi) / 180"

definition toDeg :: "real \<Rightarrow> real" where
  "toDeg r = (r * 180) / pi"

definition distanceMiles :: "LatLon \<Rightarrow> LatLon \<Rightarrow> real option" where
  "distanceMiles a b =
     (let R = 3958.8;
          dLat = toRad (ll_lat b - ll_lat a);
          dLon = toRad (ll_lon b - ll_lon a);
          lat1 = toRad (ll_lat a);
          lat2 = toRad (ll_lat b);
          h = (sin (dLat / 2))\<^sup>2 + cos lat1 * cos lat2 * (sin (dLon / 2))\<^sup>2
      in if 0 \<le> h \<and> h \<le> 1 then Some (2 * R * arcsin (sqrt h)) else None)"

text \<open>\<open>d <= radiusMiles\<close>, false when the distance is NaN.\<close>

definition num_le :: "real option \<Rightarrow> real \<Rightarrow> bool" where
  "num_le d r = (case d of None \<Rightarrow> False | Some x \<Rightarrow> x \<le> r)"

section \<open>The filter of \<open>computeResults\<close>\<close>

text \<open>
  Lines 119 to 124: \<open>events.filter\<close>. The callback looks the property up first
  and reads \<open>p.lat\<close> for every event, so an event whose \<open>property_id\<close> is not
  in \<open>properties\<close> raises, whatever its type or date.
\<close>

definition keepEvent :: "int option \<Rightarrow> LatLon \<Rightarrow> real \<Rightarrow> Property \<Rightarrow> BuyerEvent \<Rightarrow> bool" where
  "keepEvent since center radiusMiles p e =
     (let withinTime = date_ge (newDate (e_event_date e)) since;
          withinDist = num_le (distanceMiles center \<lparr>ll_lat = p_lat p, ll_lon = p_lon p\<rparr>) radiusMiles
      in e_event_type e = Purchase \<and> withinTime \<and> withinDist)"

fun filterEvents ::
  "Property list \<Rightarrow> int option \<Rightarrow> LatLon \<Rightarrow> real \<Rightarrow> BuyerEvent list \<Rightarrow> error + BuyerEvent list" where
  "filterEvents properties since center radiusMiles [] = Inr []"
| "filterEvents properties since center radiusMiles (e # es) =
     (case List.find (\<lambda>pp. p_id pp = e_property_id e) properties of
        None \<Rightarrow> Inl TypeError
      | Some p \<Rightarrow>
          (case filterEvents properties since center radiusMiles es of
             Inl err \<Rightarrow> Inl err
           | Inr rest \<Rightarrow> Inr (if keepEvent since center radiusMiles p e then e # rest else rest)))"

section \<open>Grouping by buyer\<close>

text \<open>
  \<open>byBuyer\<close> is a plain object used as a dictionary. It is held as the list of
  its own properties in creation order. An object literal inherits from
  \<open>Object.prototype\<close>, so \<open>byBuyer[k]\<close> is truthy for the names below before any
  group is stored: the group is then never created and \<open>.deals.push\<close> reads a
  field of \<open>undefined\<close>.
\<close>

record Group =
  g_buyer :: Buyer
  g_deals :: "BuyerEvent list"
  g_last :: int

definition protoKeys :: "string list" where
  "protoKeys =
     [''constructor'', ''hasOwnProperty'', ''isPrototypeOf'', ''propertyIsEnumerable'',
      ''toLocaleString'', ''toString'', ''valueOf'', ''__proto__'',
      ''__defineGetter__'', ''__defineSetter__'', ''__lookupGetter__'', ''__lookupSetter__'']"

definition updateGroup ::
  "string \<Rightarrow> (Group \<Rightarrow> Group) \<Rightarrow> (string \<times> Group) list \<Rightarrow> (string \<times> Group) list" where
  "updateGroup k f byBuyer = map (\<lambda>(k', g). if k' = k then (k', f g) else (k', g)) byBuyer"

text \<open>
  One iteration of the loop of lines 127 to 134. A missing buyer raises at
  \<open>buyer.buyer_type\<close> or at \<open>buyer.id\<close>; \<open>continue\<close> leaves the object as it is;
  \<open>new Date("1970-01-01")\<close> is the time value 0.
\<close>

definition groupStep ::
  "Buyer list \<Rightarrow> BuyerFilter \<Rightarrow> BuyerEvent \<Rightarrow> (string \<times> Group) list
     \<Rightarrow> error + (string \<times> Group) list" where
  "groupStep buyers buyerType ev byBuyer =
     (case List.find (\<lambda>b. b_id b = e_buyer_id ev) buyers of
        None \<Rightarrow> Inl TypeError
      | Some buyer \<Rightarrow>
          if buyerType \<noteq> All \<and> Only (b_buyer_type buyer) \<noteq> buyerType then Inr byBuyer
          else if b_id buyer \<in> set protoKeys then Inl TypeError
          else
            let byBuyer1 =
                  (if map_of byBuyer (b_id buyer) = None
                   then byBuyer @ [(b_id buyer, \<lparr>g_buyer = buyer, g_deals = [], g_last = 0\<rparr>)]
                   else byBuyer);
                byBuyer2 =
                  updateGroup (b_id buyer) (\<lambda>g. g\<lparr>g_deals := g_deals g @ [ev]\<rparr>) byBuyer1;
                d = newDate (e_event_date ev)
            in Inr (updateGroup (b_id buyer)
                      (\<lambda>g. case d of
                              None \<Rightarrow> g
                            | Some t \<Rightarrow> if t > g_last g then g\<lparr>g_last := t\<rparr> else g)
                      byBuyer2))"

fun groupLoop ::
  "Buyer list \<Rightarrow> BuyerFilter \<Rightarrow> BuyerEvent list \<Rightarrow> (string \<times> Group) list
     \<Rightarrow> error + (string \<times> Group) list" where
  "groupLoop buyers buyerType [] byBuyer = Inr byBuyer"
| "groupLoop buyers buyerType (ev # evs) byBuyer =
     (case groupStep buyers buyerType ev byBuyer of
        Inl err \<Rightarrow> Inl err
      | Inr byBuyer' \<Rightarrow> groupLoop buyers buyerType evs byBuyer')"

section \<open>\<open>Object.values\<close>\<close>

text \<open>
  The own properties of an ordinary object are enumerated with the array
  indices first, in ascending numeric order, and the other string keys after
  them, in creation order. An array index is the canonical decimal string of
  an integer below \<open>2^32 - 1\<close>.
\<close>

definition isDigit :: "char \<Rightarrow> bool" where
  "isDigit c = (48 \<le> (of_char c :: nat) \<and> (of_char c :: nat) \<le> 57)"

definition digitsValue :: "string \<Rightarrow> nat" where
  "digitsValue s = foldl (\<lambda>n c. 10 * n + (of_char c - 48)) 0 s"

definition arrayIndex :: "string \<Rightarrow> nat option" where
  "arrayIndex s =
     (if s \<noteq> [] \<and> list_all isDigit s \<and> (hd s \<noteq> CHR ''0'' \<or> length s = 1)
         \<and> digitsValue s < 4294967295
      then Some (digitsValue s) else None)"

definition indexOf :: "string \<times> 'v \<Rightarrow> nat" where
  "indexOf kv = (case arrayIndex (fst kv) of None \<Rightarrow> 0 | Some n \<Rightarrow> n)"

definition ownKeysOrder :: "(string \<times> 'v) list \<Rightarrow> (string \<times> 'v) list" where
  "ownKeysOrder obj =
     sort_key indexOf (filter (\<lambda>kv. arrayIndex (fst kv) \<noteq> None) obj)
     @ filter (\<lambda>kv. arrayIndex (fst kv) = None) obj"

definition objectValues :: "(string \<times> 'v) list \<Rightarrow> 'v list" where
  "objectValues obj = map snd (ownKeysOrder obj)"

section \<open>\<open>Array.prototype.sort\<close>\<close>

text \<open>
  The sort is stable (ECMAScript 2019), and both comparators of this program
  are consistent, so the result is the one stable sorted arrangement. It is
  computed by inserting from the right: an element goes before the first one
  it does not compare greater than.
\<close>

fun insertSorted :: "('a \<Rightarrow> 'a \<Rightarrow> 'n::{zero,linorder}) \<Rightarrow> 'a \<Rightarrow> 'a list \<Rightarrow> 'a list" where
  "insertSorted cmp x [] = [x]"
| "insertSorted cmp x (y # ys) =
     (if cmp x y \<le> 0 then x # y # ys else y # insertSorted cmp x ys)"

definition arraySort :: "('a \<Rightarrow> 'a \<Rightarrow> 'n::{zero,linorder}) \<Rightarrow> 'a list \<Rightarrow> 'a list" where
  "arraySort cmp xs = foldr (insertSorted cmp) xs []"

section \<open>Rows and \<open>computeResults\<close>\<close>

record ResultRow =
  r_id :: string
  r_name :: string
  r_buyer_type :: BuyerType
  r_contacts :: "Contact list"
  r_deals_count :: nat
  r_last_deal :: int
  r_median_price :: "real option"

text \<open>
  Lines 137 to 139. \<open>None\<close> is NaN, the value of \<open>(undefined + undefined) / 2\<close>
  on an empty price list.
\<close>

definition medianOf :: "real list \<Rightarrow> real option" where
  "medianOf prices =
     (let mid = length prices div 2
      in if length prices mod 2 \<noteq> 0 then Some (prices ! mid)
         else if prices = [] then None
         else Some ((prices ! (mid - 1) + prices ! mid) / 2))"

definition toRow :: "Group \<Rightarrow> ResultRow" where
  "toRow v =
     (let prices = arraySort (\<lambda>a b. a - b) (map e_price (g_deals v));
          median = medianOf prices
      in \<lparr>r_id = b_id (g_buyer v), r_name = b_name (g_buyer v),
          r_buyer_type = b_buyer_type (g_buyer v), r_contacts = b_contacts (g_buyer v),
          r_deals_count = length (g_deals v), r_last_deal = g_last v,
          r_median_price = median\<rparr>)"

text \<open>The comparator of line 143; \<open>x || y\<close> is \<open>y\<close> when \<open>x\<close> is 0.\<close>

definition compareRows :: "ResultRow \<Rightarrow> ResultRow \<Rightarrow> int" where
  "compareRows a b =
     (let d = int (r_deals_count b) - int (r_deals_count a)
      in if d \<noteq> 0 then d else r_last_deal b - r_last_deal a)"

text \<open>
  \<open>computeResults\<close>. The arrays \<open>buyers\<close>, \<open>properties\<close> and \<open>events\<close> are
  module constants in the source and parameters here, after the clock reading.
\<close>

definition computeResults ::
  "Clock \<Rightarrow> Buyer list \<Rightarrow> Property list \<Rightarrow> BuyerEvent list
     \<Rightarrow> LatLon \<Rightarrow> real \<Rightarrow> int \<Rightarrow> BuyerFilter \<Rightarrow> error + ResultRow list" where
  "computeResults clk buyers properties events center radiusMiles months buyerType =
     (let since = monthsAgo clk months
      in case filterEvents properties since center radiusMiles events of
           Inl err \<Rightarrow> Inl err
         | Inr filtered \<Rightarrow>
             (case groupLoop buyers buyerType filtered [] of
                Inl err \<Rightarrow> Inl err
              | Inr byBuyer \<Rightarrow>
                  Inr (arraySort compareRows (map toRow (objectValues byBuyer)))))"

section \<open>\<open>circlePolygon\<close>\<close>

text \<open>
  \<open>Math.atan2\<close> and the points of the ring on exact reals. With \<open>points = 0\<close>
  the code divides 0 by 0 and its one point is NaN; the model's value there is
  not the code's.
\<close>

definition atan2 :: "real \<Rightarrow> real \<Rightarrow> real" where
  "atan2 y x =
     (if x > 0 then arctan (y / x)
      else if x < 0 then (if y \<ge> 0 then arctan (y / x) + pi else arctan (y / x) - pi)
      else if y > 0 then pi / 2 else if y < 0 then - pi / 2 else 0)"

definition circlePoint :: "real \<Rightarrow> real \<Rightarrow> real \<Rightarrow> nat \<Rightarrow> nat \<Rightarrow> real \<times> real" where
  "circlePoint lon lat radiusMiles points i =
     (let R = 3958.8;
          latR = toRad lat;
          lonR = toRad lon;
          angDist = radiusMiles / R;
          brng = (real i / real points) * 2 * pi;
          lat2 = arcsin (sin latR * cos angDist + cos latR * sin angDist * cos brng);
          lon2 = lonR + atan2 (sin brng * sin angDist * cos latR)
                          (cos angDist - sin latR * sin lat2)
      in (toDeg lon2, toDeg lat2))"

function circleLoop ::
  "real \<Rightarrow> real \<Rightarrow> real \<Rightarrow> nat \<Rightarrow> nat \<Rightarrow> (real \<times> real) list \<Rightarrow> (real \<times> real) list" where
  "circleLoop lon lat radiusMiles points i coords =
     (if i \<le> points
      then circleLoop lon lat radiusMiles points (Suc i)
             (coords @ [circlePoint lon lat radiusMiles points i])
      else coords)"
  by pat_completeness auto
termination
  by (relation "measure (\<lambda>(lon, lat, radiusMiles, points, i, coords). Suc points - i)") auto

declare circleLoop.simps [simp del]

definition circlePolygon :: "real \<Rightarrow> real \<Rightarrow> real \<Rightarrow> nat \<Rightarrow> (real \<times> real) list" where
  "circlePolygon lon lat radiusMiles points = circleLoop lon lat radiusMiles points 0 []"

section \<open>The seeded demo data\<close>

text \<open>The constants \<open>buyers\<close>, \<open>properties\<close> and \<open>events\<close> of lines 43 to 67.\<close>

definition buyer_b1 :: Buyer where
  "buyer_b1 =
     \<lparr>b_id = ''b1'', b_name = ''Evergreen Residential LLC'', b_buyer_type = Flipper,
      b_contacts = [\<lparr>phone = Some ''210-555-0187'', email = None\<rparr>]\<rparr>"

definition buyer_b2 :: Buyer where
  "buyer_b2 =
     \<lparr>b_id = ''b2'', b_name = ''Alamo Rentals Group'', b_buyer_type = Landlord,
      b_contacts = [\<lparr>phone = Some ''210-555-0142'', email = None\<rparr>]\<rparr>"

definition buyer_b3 :: Buyer where
  "buyer_b3 =
     \<lparr>b_id = ''b3'', b_name = ''River City Capital'', b_buyer_type = Cash,
      b_contacts = [\<lparr>phone = Some ''210-555-0199'', email = None\<rparr>]\<rparr>"

definition buyer_b4 :: Buyer where
  "buyer_b4 =
     \<lparr>b_id = ''b4'', b_name = ''Hill Country Flips'', b_buyer_type = Flipper,
      b_contacts = [\<lparr>phone = None, email = Some ''offers@hillcountryflips.com''\<rparr>]\<rparr>"

definition prop_p1 :: Property where
  "prop_p1 =
     \<lparr>p_id = ''p1'', p_addr1 = ''112 Blanco Rd'', p_city = ''San Antonio'', p_state = ''TX'',
      p_zip = ''78212'', p_lat = 29.462, p_lon = - 98.501\<rparr>"

definition prop_p2 :: Property where
  "prop_p2 =
     \<lparr>p_id = ''p2'', p_addr1 = ''2744 Briarhurst Dr #38'', p_city = ''Houston'', p_state = ''TX'',
      p_zip = ''77057'', p_lat = 29.741, p_lon = - 95.483\<rparr>"

definition prop_p3 :: Property where
  "prop_p3 =
     \<lparr>p_id = ''p3'', p_addr1 = ''501 Woodlawn Ave'', p_city = ''San Antonio'', p_state = ''TX'',
      p_zip = ''78201'', p_lat = 29.458, p_lon = - 98.514\<rparr>"

definition prop_p4 :: Property where
  "prop_p4 =
     \<lparr>p_id = ''p4'', p_addr1 = ''2803 W Martin St'', p_city = ''San Antonio'', p_state = ''TX'',
      p_zip = ''78207'', p_lat = 29.422, p_lon = - 98.514\<rparr>"

definition prop_p5 :: Property where
  "prop_p5 =
     \<lparr>p_id = ''p5'', p_addr1 = ''133 King William St'', p_city = ''San Antonio'', p_state = ''TX'',
      p_zip = ''78204'', p_lat = 29.410, p_lon = - 98.495\<rparr>"

definition prop_p6 :: Property where
  "prop_p6 =
     \<lparr>p_id = ''p6'', p_addr1 = ''845 S Presa St'', p_city = ''San Antonio'', p_state = ''TX'',
      p_zip = ''78210'', p_lat = 29.411, p_lon = - 98.487\<rparr>"

definition ev_e1 :: BuyerEvent where
  "ev_e1 =
     \<lparr>e_id = ''e1'', e_buyer_id = ''b1'', e_property_id = ''p1'', e_event_type = Purchase,
      e_event_date = \<lparr>iso_year = 2025, iso_month = 7, iso_day = 21\<rparr>,
      e_price = 275000, e_source = County\<rparr>"

definition ev_e2 :: BuyerEvent where
  "ev_e2 =
     \<lparr>e_id = ''e2'', e_buyer_id = ''b1'', e_property_id = ''p3'', e_event_type = Purchase,
      e_event_date = \<lparr>iso_year = 2025, iso_month = 5, iso_day = 10\<rparr>,
      e_price = 245000, e_source = County\<rparr>"

definition ev_e3 :: BuyerEvent where
  "ev_e3 =
     \<lparr>e_id = ''e3'', e_buyer_id = ''b1'', e_property_id = ''p5'', e_event_type = Purchase,
      e_event_date = \<lparr>iso_year = 2024, iso_month = 12, iso_day = 19\<rparr>,
      e_price = 310000, e_source = Mls\<rparr>"

definition ev_e4 :: BuyerEvent where
  "ev_e4 =
     \<lparr>e_id = ''e4'', e_buyer_id = ''b2'', e_property_id = ''p4'', e_event_type = Purchase,
      e_event_date = \<lparr>iso_year = 2025, iso_month = 3, iso_day = 2\<rparr>,
      e_price = 190000, e_source = County\<rparr>"

definition ev_e5 :: BuyerEvent where
  "ev_e5 =
     \<lparr>e_id = ''e5'', e_buyer_id = ''b2'', e_property_id = ''p6'', e_event_type = Purchase,
      e_event_date = \<lparr>iso_year = 2024, iso_month = 10, iso_day = 11\<rparr>,
      e_price = 215000, e_source = County\<rparr>"

definition ev_e6 :: BuyerEvent where
  "ev_e6 =
     \<lparr>e_id = ''e6'', e_buyer_id = ''b3'', e_property_id = ''p1'', e_event_type = Purchase,
      e_event_date = \<lparr>iso_year = 2024, iso_month = 9, iso_day = 20\<rparr>,
      e_price = 260000, e_source = County\<rparr>"

definition ev_e7 :: BuyerEvent where
  "ev_e7 =
     \<lparr>e_id = ''e7'', e_buyer_id = ''b4'', e_property_id = ''p6'', e_event_type = Purchase,
      e_event_date = \<lparr>iso_year = 2025, iso_month = 8, iso_day = 5\<rparr>,
      e_price = 330000, e_source = Mls\<rparr>"

definition seedBuyers :: "Buyer list" where
  "seedBuyers = [buyer_b1, buyer_b2, buyer_b3, buyer_b4]"

definition seedProperties :: "Property list" where
  "seedProperties = [prop_p1, prop_p2, prop_p3, prop_p4, prop_p5, prop_p6]"

definition seedEvents :: "BuyerEvent list" where
  "seedEvents = [ev_e1, ev_e2, ev_e3, ev_e4, ev_e5, ev_e6, ev_e7]"

text \<open>
  Inputs of the examples: a clock reading of 1 October 2025, 00:00 UTC, with
  local time UTC, and a center at 112 Blanco Rd (property p1).
\<close>

definition oct2025 :: Clock where
  "oct2025 = \<lparr>now_year = 2025, now_month = 9, now_date = 1, now_time = 0, now_tza = 0\<rparr>"

definition blancoRd :: LatLon where
  "blancoRd = \<lparr>ll_lat = 29.462, ll_lon = - 98.501\<rparr>"

text \<open>
  Further events for the examples: e2 moved to property p1, a purchase of p1
  by b4 on the day of e1, and e6 with a buyer id that no buyer has.
\<close>

definition ev_e2_p1 :: BuyerEvent where
  "ev_e2_p1 = ev_e2\<lparr>e_property_id := ''p1''\<rparr>"

definition ev_e8 :: BuyerEvent where
  "ev_e8 = ev_e1\<lparr>e_id := ''e8'', e_buyer_id := ''b4''\<rparr>"

definition ev_e6_b9 :: BuyerEvent where
  "ev_e6_b9 = ev_e6\<lparr>e_buyer_id := ''b9''\<rparr>"

text \<open>The buyers b1 and b4 and the events e1 and e8 with the ids \<open>"2"\<close> and \<open>"1"\<close>.\<close>

definition buyer_2 :: Buyer where
  "buyer_2 = buyer_b1\<lparr>b_id := ''2''\<rparr>"

definition buyer_1 :: Buyer where
  "buyer_1 = buyer_b4\<lparr>b_id := ''1''\<rparr>"

definition ev_e1_2 :: BuyerEvent where
  "ev_e1_2 = ev_e1\<lparr>e_buyer_id := ''2''\<rparr>"

definition ev_e8_1 :: BuyerEvent where
  "ev_e8_1 = ev_e8\<lparr>e_buyer_id := ''1''\<rparr>"

text \<open>
  Rows of the examples: b1 with the deal e1, b1 with the deals e1 and e2, b3
  with e6, b4 with e8, and the rows of the buyers with the ids \<open>"2"\<close> and
  \<open>"1"\<close>. 1753056000000 is 21 July 2025 and 1726790400000 is 20 September 2024.
\<close>

definition row_b1 :: ResultRow where
  "row_b1 =
     \<lparr>r_id = ''b1'', r_name = ''Evergreen Residential LLC'', r_buyer_type = Flipper,
      r_contacts = [\<lparr>phone = Some ''210-555-0187'', email = None\<rparr>],
      r_deals_count = 1, r_last_deal = 1753056000000, r_median_price = Some 275000\<rparr>"

definition row_b1_two :: ResultRow where
  "row_b1_two =
     \<lparr>r_id = ''b1'', r_name = ''Evergreen Residential LLC'', r_buyer_type = Flipper,
      r_contacts = [\<lparr>phone = Some ''210-555-0187'', email = None\<rparr>],
      r_deals_count = 2, r_last_deal = 1753056000000, r_median_price = Some 260000\<rparr>"

definition row_b3 :: ResultRow where
  "row_b3 =
     \<lparr>r_id = ''b3'', r_name = ''River City Capital'', r_buyer_type = Cash,
      r_contacts = [\<lparr>phone = Some ''210-555-0199'', email = None\<rparr>],
      r_deals_count = 1, r_last_deal = 1726790400000, r_median_price = Some 260000\<rparr>"

definition row_b4 :: ResultRow where
  "row_b4 =
     \<lparr>r_id = ''b4'', r_name = ''Hill Country Flips'', r_buyer_type = Flipper,
      r_contacts = [\<lparr>phone = None, email = Some ''offers@hillcountryflips.com''\<rparr>],
      r_deals_count = 1, r_last_deal = 1753056000000, r_median_price = Some 275000\<rparr>"

definition row_2 :: ResultRow where
  "row_2 = row_b1\<lparr>r_id := ''2''\<rparr>"

definition row_1 :: ResultRow where
  "row_1 = row_b4\<lparr>r_id := ''1''\<rparr>"

section \<open>Notions used in the statements\<close>

text \<open>The day number of the first of a month, the part of \<open>MakeDay\<close> before the date.\<close>

definition firstDay :: "int \<Rightarrow> int \<Rightarrow> int" where
  "firstDay y m =
     DayFromYear (y + m div 12) + monthStart (m mod 12) (InLeapYear (y + m div 12))"

text \<open>
  An event is resolved when its property is found, and retained when the
  callback of \<open>events.filter\<close> returns true for it.
\<close>

definition resolved :: "Property list \<Rightarrow> BuyerEvent \<Rightarrow> bool" where
  "resolved properties e = (List.find (\<lambda>pp. p_id pp = e_property_id e) properties \<noteq> None)"

definition retained :: "Property list \<Rightarrow> int option \<Rightarrow> LatLon \<Rightarrow> real \<Rightarrow> BuyerEvent \<Rightarrow> bool" where
  "retained properties since center radiusMiles e =
     (case List.find (\<lambda>pp. p_id pp = e_property_id e) properties of
        None \<Rightarrow> False
      | Some p \<Rightarrow> keepEvent since center radiusMiles p e)"

text \<open>
  An event matches when its buyer is found and passes the test of line 129.
  The qualifying events of a query are the retained events that match; the
  group-construction order is the order in which buyer ids first occur among
  them.
\<close>

definition matches :: "Buyer list \<Rightarrow> BuyerFilter \<Rightarrow> BuyerEvent \<Rightarrow> bool" where
  "matches buyers buyerType e =
     (case List.find (\<lambda>b. b_id b = e_buyer_id e) buyers of
        None \<Rightarrow> False
      | Some b \<Rightarrow> buyerType = All \<or> buyerType = Only (b_buyer_type b))"

definition qualifying ::
  "Clock \<Rightarrow> Buyer list \<Rightarrow> Property list \<Rightarrow> BuyerEvent list
     \<Rightarrow> LatLon \<Rightarrow> real \<Rightarrow> int \<Rightarrow> BuyerFilter \<Rightarrow> BuyerEvent list" where
  "qualifying clk buyers properties events center radiusMiles months buyerType =
     filter (matches buyers buyerType)
       (filter (retained properties (monthsAgo clk months) center radiusMiles) events)"

definition firstOccurrences :: "'a list \<Rightarrow> 'a list" where
  "firstOccurrences xs = rev (remdups (rev xs))"

text \<open>The order in which an object with the keys \<open>ks\<close> enumerates them.\<close>

definition keyOrder :: "string list \<Rightarrow> string list" where
  "keyOrder ks = map fst (ownKeysOrder (map (\<lambda>k. (k, ())) ks))"

text \<open>The state of \<open>byBuyer\<close> after the loop has run over \<open>es\<close>.\<close>

definition groupInv ::
  "Buyer list \<Rightarrow> BuyerFilter \<Rightarrow> BuyerEvent list \<Rightarrow> (string \<times> Group) list \<Rightarrow> bool" where
  "groupInv buyers buyerType es byBuyer =
     (map fst byBuyer = firstOccurrences (map e_buyer_id (filter (matches buyers buyerType) es))
      \<and> list_all (\<lambda>(k, g).
            g_deals g = filter (\<lambda>e. e_buyer_id e = k) (filter (matches buyers buyerType) es)
            \<and> List.find (\<lambda>b. b_id b = k) buyers = Some (g_buyer g)) byBuyer)"

text \<open>The sort key that \<open>compareRows\<close> orders by, ascending in the lexicographic order of pairs.\<close>

definition rowKey :: "ResultRow \<Rightarrow> int \<times> int" where
  "rowKey r = (- int (r_deals_count r), - r_last_deal r)"


text \<open>
  The buyer of an event is known when \<open>buyers.find\<close> returns one and its id is
  not a property name of \<open>Object.prototype\<close>.
\<close>

definition buyerKnown :: "Buyer list \<Rightarrow> BuyerEvent \<Rightarrow> bool" where
  "buyerKnown buyers e =
     (List.find (\<lambda>b. b_id b = e_buyer_id e) buyers \<noteq> None \<and> e_buyer_id e \<notin> set protoKeys)"

section \<open>Calendar arithmetic\<close>

lemma MakeDay_firstDay: "MakeDay y m d = firstDay y m + d - 1"
  by (simp add: MakeDay_def firstDay_def Let_def)

lemma divmod_next_aux:
  fixes q r :: int
  assumes "0 \<le> r" "r < 12"
  shows "(12 * q + r + 1) div 12 = (if r = 11 then q + 1 else q)"
    and "(12 * q + r + 1) mod 12 = (if r = 11 then 0 else r + 1)"
proof -
  show "(12 * q + r + 1) div 12 = (if r = 11 then q + 1 else q)"
  proof (cases "r = 11")
    case True
    have "12 * q + r + 1 = 12 * (q + 1) + 0" using True by simp
    then have "(12 * q + r + 1) div 12 = q + 1" by (rule int_div_pos_eq) simp_all
    with True show ?thesis by simp
  next
    case False
    have "12 * q + r + 1 = 12 * q + (r + 1)" by simp
    then have "(12 * q + r + 1) div 12 = q"
      by (rule int_div_pos_eq) (use assms False in simp_all)
    with False show ?thesis by simp
  qed
  show "(12 * q + r + 1) mod 12 = (if r = 11 then 0 else r + 1)"
  proof (cases "r = 11")
    case True
    have "12 * q + r + 1 = 12 * (q + 1) + 0" using True by simp
    then have "(12 * q + r + 1) mod 12 = 0" by (rule int_mod_pos_eq) simp_all
    with True show ?thesis by simp
  next
    case False
    have "12 * q + r + 1 = 12 * q + (r + 1)" by simp
    then have "(12 * q + r + 1) mod 12 = r + 1"
      by (rule int_mod_pos_eq) (use assms False in simp_all)
    with False show ?thesis by simp
  qed
qed

lemma divmod_next:
  fixes m :: int
  shows "(m + 1) div 12 = (if m mod 12 = 11 then m div 12 + 1 else m div 12)"
    and "(m + 1) mod 12 = (if m mod 12 = 11 then 0 else m mod 12 + 1)"
proof -
  have r: "0 \<le> m mod 12" "m mod 12 < 12" by simp_all
  have m: "12 * (m div 12) + m mod 12 = m" by simp
  show "(m + 1) div 12 = (if m mod 12 = 11 then m div 12 + 1 else m div 12)"
    using divmod_next_aux(1) [OF r, of "m div 12"] by (simp only: m)
  show "(m + 1) mod 12 = (if m mod 12 = 11 then 0 else m mod 12 + 1)"
    using divmod_next_aux(2) [OF r, of "m div 12"] by (simp only: m)
qed

lemma month_cases:
  "0 \<le> r \<Longrightarrow> r < 11 \<Longrightarrow>
     (r::int) = 0 \<or> r = 1 \<or> r = 2 \<or> r = 3 \<or> r = 4 \<or> r = 5 \<or> r = 6 \<or> r = 7 \<or> r = 8
       \<or> r = 9 \<or> r = 10"
  by arith

lemma year_lin:
  "a \<le> a' \<Longrightarrow> b' \<le> b + 1 \<Longrightarrow> c \<le> c' \<Longrightarrow>
     365 * (y - 1970) + a - b + c + 335 \<le> 365 * (y + 1 - 1970) + a' - b' + (c'::int)"
  by simp

text \<open>A year has at least 335 days, whatever the leap rules add or remove.\<close>

lemma DayFromYear_next: "DayFromYear y + 335 \<le> DayFromYear (y + 1)"
proof -
  have a: "(y - 1969) div 4 \<le> (y + 1 - 1969) div 4" by (rule zdiv_mono1) simp_all
  have "(y + 1 - 1901) div 100 \<le> (y - 1901 + 100) div 100" by (rule zdiv_mono1) simp_all
  then have b: "(y + 1 - 1901) div 100 \<le> (y - 1901) div 100 + 1" by simp
  have c: "(y - 1601) div 400 \<le> (y + 1 - 1601) div 400" by (rule zdiv_mono1) simp_all
  show ?thesis unfolding DayFromYear_def by (rule year_lin [OF a b c])
qed

lemma monthStart_next:
  assumes "0 \<le> r" "r < 11"
  shows "monthStart r L \<le> monthStart (r + 1) L"
  using month_cases [OF assms] by (auto simp: monthStart_def)

lemma monthStart_Dec: "monthStart 11 L \<le> 335"
  by (simp add: monthStart_def)

lemma firstDay_step: "firstDay y m \<le> firstDay y (m + 1)"
proof (cases "m mod 12 = 11")
  case True
  have "firstDay y m \<le> DayFromYear (y + m div 12) + 335"
    using monthStart_Dec by (simp add: firstDay_def True)
  also have "\<dots> \<le> DayFromYear (y + m div 12 + 1)" by (rule DayFromYear_next)
  also have "\<dots> = firstDay y (m + 1)"
    by (simp add: firstDay_def divmod_next True monthStart_def add.assoc)
  finally show ?thesis .
next
  case False
  have b: "0 \<le> m mod 12" "m mod 12 < 11"
    using False pos_mod_bound [of 12 m] by simp_all
  show ?thesis
    using monthStart_next [OF b] by (simp add: firstDay_def divmod_next False)
qed

lemma firstDay_mono_nat: "firstDay y m \<le> firstDay y (m + int k)"
proof (induction k)
  case 0
  then show ?case by simp
next
  case (Suc k)
  have "firstDay y (m + int k) \<le> firstDay y (m + int k + 1)" by (rule firstDay_step)
  also have "m + int k + 1 = m + int (Suc k)" by simp
  finally show ?case using Suc by simp
qed

text \<open>\<open>MakeDay\<close> is monotone in its month argument, rollover included.\<close>

lemma MakeDay_mono:
  assumes "m \<le> m'"
  shows "MakeDay y m d \<le> MakeDay y m' d"
proof -
  from assms have "m' = m + int (nat (m' - m))" by simp
  then show ?thesis
    using firstDay_mono_nat [of y m "nat (m' - m)"] by (simp add: MakeDay_firstDay)
qed

lemma monthsAgo_mono:
  assumes "m1 \<le> m2" "monthsAgo clk m1 = Some s1" "monthsAgo clk m2 = Some s2"
  shows "s2 \<le> s1"
proof -
  have "MakeDay (now_year clk) (now_month clk - m2) (now_date clk)
          \<le> MakeDay (now_year clk) (now_month clk - m1) (now_date clk)"
    using assms(1) by (intro MakeDay_mono) simp
  then have "MakeDate (MakeDay (now_year clk) (now_month clk - m2) (now_date clk)) (now_time clk)
          \<le> MakeDate (MakeDay (now_year clk) (now_month clk - m1) (now_date clk)) (now_time clk)"
    by (simp add: MakeDate_def msPerDay_def)
  with assms(2,3) show ?thesis
    by (auto simp: monthsAgo_def TimeClip_def split: if_splits)
qed

lemmas date_defs = monthsAgo_def newDate_def TimeClip_def MakeDate_def MakeDay_def
  DayFromYear_def monthStart_def InLeapYear_def msPerDay_def date_ge_def

lemmas seed_defs = seedProperties_def seedBuyers_def seedEvents_def
  prop_p1_def prop_p2_def prop_p3_def prop_p4_def prop_p5_def prop_p6_def
  buyer_b1_def buyer_b2_def buyer_b3_def buyer_b4_def
  ev_e1_def ev_e2_def ev_e3_def ev_e4_def ev_e5_def ev_e6_def ev_e7_def

lemmas eval_defs = computeResults_def groupStep_def updateGroup_def objectValues_def
  ownKeysOrder_def indexOf_def arrayIndex_def isDigit_def digitsValue_def arraySort_def
  toRow_def medianOf_def compareRows_def protoKeys_def keepEvent_def num_le_def
  oct2025_def blancoRd_def

lemmas example_defs = ev_e2_p1_def ev_e8_def ev_e6_b9_def buyer_2_def buyer_1_def
  ev_e1_2_def ev_e8_1_def row_b1_def row_b1_two_def row_b3_def row_b4_def row_2_def row_1_def

section \<open>The filter\<close>

lemma distanceMiles_self: "distanceMiles a a = Some 0"
  by (simp add: distanceMiles_def toRad_def)

lemma filterEvents_Inr:
  "filterEvents ps since c r es = Inr xs \<Longrightarrow>
     list_all (resolved ps) es \<and> xs = filter (retained ps since c r) es"
  by (induction es arbitrary: xs)
     (auto simp: resolved_def retained_def split: option.splits sum.splits if_splits)

lemma filterEvents_resolved:
  "list_all (resolved ps) es \<Longrightarrow>
     filterEvents ps since c r es = Inr (filter (retained ps since c r) es)"
  by (induction es) (auto simp: resolved_def retained_def split: option.splits)

lemma filterEvents_unresolved:
  "\<not> list_all (resolved ps) es \<Longrightarrow> filterEvents ps since c r es = Inl TypeError"
  by (induction es) (auto simp: resolved_def split: option.splits sum.splits error.splits)

lemma length_filter_mono:
  "(\<And>x. x \<in> set xs \<Longrightarrow> P x \<Longrightarrow> Q x) \<Longrightarrow> length (filter P xs) \<le> length (filter Q xs)"
  by (induction xs) auto

lemma retained_radius_mono:
  "r1 \<le> r2 \<Longrightarrow> retained ps since c r1 e \<Longrightarrow> retained ps since c r2 e"
  by (auto simp: retained_def keepEvent_def num_le_def split: option.splits)

lemma retained_months_mono:
  assumes "m1 \<le> m2" "monthsAgo clk m2 \<noteq> None" "retained ps (monthsAgo clk m1) c r e"
  shows "retained ps (monthsAgo clk m2) c r e"
proof -
  from assms(2) obtain s2 where s2: "monthsAgo clk m2 = Some s2" by auto
  from assms(3) obtain s1 where s1: "monthsAgo clk m1 = Some s1"
    by (cases "monthsAgo clk m1")
       (auto simp: retained_def keepEvent_def date_ge_def split: option.splits)
  from monthsAgo_mono [OF assms(1) s1 s2] assms(3) show ?thesis
    by (auto simp: retained_def keepEvent_def date_ge_def s1 s2 split: option.splits)
qed

text \<open>The filter reads \<open>since\<close> only in the time test of each event.\<close>

lemma filterEvents_time_cong:
  assumes "\<forall>e\<in>set es. date_ge (newDate (e_event_date e)) s1
                        = date_ge (newDate (e_event_date e)) s2"
  shows "filterEvents ps s1 c r es = filterEvents ps s2 c r es"
  using assms
proof (induction es)
  case Nil
  then show ?case by simp
next
  case (Cons e es)
  then have k: "keepEvent s1 c r p e = keepEvent s2 c r p e" for p
    by (simp add: keepEvent_def)
  from Cons have "filterEvents ps s1 c r es = filterEvents ps s2 c r es" by simp
  then show ?case by (simp add: k split: option.splits sum.splits)
qed

section \<open>The grouping loop\<close>

lemma find_id: "List.find (\<lambda>b. b_id b = k) buyers = Some b \<Longrightarrow> b_id b = k"
  by (auto simp: find_Some_iff)

lemma updateGroup_fst: "map fst (updateGroup k f G) = map fst G"
  by (induction G) (auto simp: updateGroup_def)

lemma updateGroup_comp: "updateGroup k f (updateGroup k h G) = updateGroup k (f \<circ> h) G"
  by (induction G) (auto simp: updateGroup_def)

lemma updateGroup_append:
  "updateGroup k f (G @ H) = updateGroup k f G @ updateGroup k f H"
  by (simp add: updateGroup_def)

lemma updateGroup_absent: "k \<notin> fst ` set G \<Longrightarrow> updateGroup k f G = G"
  by (induction G) (auto simp: updateGroup_def)

lemma list_all_updateGroup:
  "list_all (\<lambda>(k', g). P k' (if k' = k then f g else g)) G \<Longrightarrow>
     list_all (\<lambda>(k', g). P k' g) (updateGroup k f G)"
  by (induction G) (auto simp: updateGroup_def split: if_splits)

lemma groupLoop_append:
  "groupLoop bs bt (xs @ ys) G =
     (case groupLoop bs bt xs G of Inl e \<Rightarrow> Inl e | Inr G' \<Rightarrow> groupLoop bs bt ys G')"
  by (induction xs arbitrary: G) (auto split: sum.splits)

lemma groupLoop_snoc:
  "groupLoop bs bt (xs @ [ev]) G = Inr G' \<longleftrightarrow>
     (\<exists>G0. groupLoop bs bt xs G = Inr G0 \<and> groupStep bs bt ev G0 = Inr G')"
  by (auto simp: groupLoop_append split: sum.splits)

lemma firstOccurrences_snoc:
  "firstOccurrences (xs @ [x]) =
     (if x \<in> set xs then firstOccurrences xs else firstOccurrences xs @ [x])"
  by (simp add: firstOccurrences_def)

lemma firstOccurrences_Nil: "firstOccurrences [] = []"
  by (simp add: firstOccurrences_def)

lemma set_firstOccurrences: "set (firstOccurrences xs) = set xs"
  by (simp add: firstOccurrences_def)

lemma distinct_firstOccurrences: "distinct (firstOccurrences xs)"
  by (simp add: firstOccurrences_def)

lemma map_of_None_iff: "map_of G k = None \<longleftrightarrow> k \<notin> set (map fst G)"
  by (simp add: map_of_eq_None_iff)

lemma filter_key_absent: "k \<notin> set (map f xs) \<Longrightarrow> filter (\<lambda>e. f e = k) xs = []"
  by (induction xs) auto

lemma groupInv_Nil: "groupInv bs bt [] []"
  by (simp add: groupInv_def firstOccurrences_Nil)

lemma groupStep_inv:
  assumes inv: "groupInv bs bt es G" and step: "groupStep bs bt ev G = Inr G'"
  shows "groupInv bs bt (es @ [ev]) G'"
proof -
  let ?Q = "filter (matches bs bt) es"
  from inv have keys: "map fst G = firstOccurrences (map e_buyer_id ?Q)"
    and all: "list_all (\<lambda>(k, g). g_deals g = filter (\<lambda>e. e_buyer_id e = k) ?Q
                \<and> List.find (\<lambda>b. b_id b = k) bs = Some (g_buyer g)) G"
    by (simp_all add: groupInv_def)
  from step obtain buyer where fb: "List.find (\<lambda>b. b_id b = e_buyer_id ev) bs = Some buyer"
    by (auto simp: groupStep_def split: option.splits)
  then have bid: "b_id buyer = e_buyer_id ev" by (rule find_id)
  show ?thesis
  proof (cases "bt \<noteq> All \<and> Only (b_buyer_type buyer) \<noteq> bt")
    case True
    then have "\<not> matches bs bt ev" by (auto simp: matches_def fb)
    moreover from step True have "G' = G" by (simp add: groupStep_def fb)
    ultimately show ?thesis using inv by (simp add: groupInv_def)
  next
    case False
    then have m: "matches bs bt ev" by (auto simp: matches_def fb)
    let ?k = "e_buyer_id ev"
    define f :: "Group \<Rightarrow> Group" where
      "f = (\<lambda>g. case newDate (e_event_date ev) of None \<Rightarrow> g
                   | Some t \<Rightarrow> if t > g_last g then g\<lparr>g_last := t\<rparr> else g)
              \<circ> (\<lambda>g. g\<lparr>g_deals := g_deals g @ [ev]\<rparr>)"
    have fd: "g_deals (f g) = g_deals g @ [ev]" and fbu: "g_buyer (f g) = g_buyer g" for g
      by (auto simp: f_def split: option.splits)
    show ?thesis
    proof (cases "?k \<in> set (map fst G)")
      case True
      with step False have G': "G' = updateGroup ?k f G"
        by (auto simp: groupStep_def fb bid Let_def updateGroup_comp map_of_None_iff f_def
              split: if_splits)
      from True have "?k \<in> set (map e_buyer_id ?Q)"
        by (simp add: keys set_firstOccurrences)
      then have k1: "map fst G' = firstOccurrences (map e_buyer_id (filter (matches bs bt) (es @ [ev])))"
        by (simp add: G' updateGroup_fst keys m firstOccurrences_snoc)
      have "list_all (\<lambda>(k, g). g_deals g = filter (\<lambda>e. e_buyer_id e = k) (filter (matches bs bt) (es @ [ev]))
                \<and> List.find (\<lambda>b. b_id b = k) bs = Some (g_buyer g)) G'"
        unfolding G'
        by (rule list_all_updateGroup) (use all in \<open>auto simp: list_all_iff m fd fbu\<close>)
      with k1 show ?thesis by (simp add: groupInv_def)
    next
      case False
      note absent = this
      let ?init = "\<lparr>g_buyer = buyer, g_deals = [], g_last = 0\<rparr>"
      from step \<open>\<not> (bt \<noteq> All \<and> Only (b_buyer_type buyer) \<noteq> bt)\<close> absent
      have G': "G' = updateGroup ?k f (G @ [(?k, ?init)])"
        by (auto simp: groupStep_def fb bid Let_def updateGroup_comp map_of_None_iff f_def
              split: if_splits)
      from absent have "?k \<notin> fst ` set G" by simp
      then have G'': "G' = G @ [(?k, f ?init)]"
        by (simp add: G' updateGroup_append updateGroup_absent) (simp add: updateGroup_def)
      from absent have nk: "?k \<notin> set (map e_buyer_id ?Q)"
        by (simp add: keys set_firstOccurrences)
      then have k1: "map fst G' = firstOccurrences (map e_buyer_id (filter (matches bs bt) (es @ [ev])))"
        by (simp add: G'' keys m firstOccurrences_snoc)
      from nk have empty: "filter (\<lambda>e. e_buyer_id e = ?k) ?Q = []"
        by (rule filter_key_absent)
      have old: "list_all (\<lambda>(k, g). g_deals g = filter (\<lambda>e. e_buyer_id e = k) (filter (matches bs bt) (es @ [ev]))
                \<and> List.find (\<lambda>b. b_id b = k) bs = Some (g_buyer g)) G"
        unfolding list_all_iff
      proof (intro ballI)
        fix kg assume kg: "kg \<in> set G"
        obtain k g where eq: "kg = (k, g)" by (cases kg)
        from kg absent have ne: "e_buyer_id ev \<noteq> k" by (force simp: eq)
        from all kg have "g_deals g = filter (\<lambda>e. e_buyer_id e = k) ?Q
            \<and> List.find (\<lambda>b. b_id b = k) bs = Some (g_buyer g)"
          by (auto simp: list_all_iff eq)
        with ne show "case kg of (k, g) \<Rightarrow>
            g_deals g = filter (\<lambda>e. e_buyer_id e = k) (filter (matches bs bt) (es @ [ev]))
            \<and> List.find (\<lambda>b. b_id b = k) bs = Some (g_buyer g)"
          by (simp add: eq m)
      qed
      have new: "g_deals (f ?init) = filter (\<lambda>e. e_buyer_id e = ?k) (filter (matches bs bt) (es @ [ev]))
                \<and> List.find (\<lambda>b. b_id b = ?k) bs = Some (g_buyer (f ?init))"
        by (simp add: fd fbu m empty fb del: filter_filter)
      from old new k1 show ?thesis by (simp add: groupInv_def G'')
    qed
  qed
qed

lemma groupLoop_inv: "groupLoop bs bt es [] = Inr G \<Longrightarrow> groupInv bs bt es G"
proof (induction es arbitrary: G rule: rev_induct)
  case Nil
  then show ?case by (simp add: groupInv_Nil)
next
  case (snoc ev es)
  from snoc.prems obtain G0 where "groupLoop bs bt es [] = Inr G0" "groupStep bs bt ev G0 = Inr G"
    by (auto simp: groupLoop_snoc)
  with snoc.IH show ?case by (blast intro: groupStep_inv)
qed

section \<open>Sorting and enumeration order\<close>

lemma insertSorted_insort_key:
  assumes "\<And>x y. cmp x y \<le> 0 \<longleftrightarrow> key x \<le> key y"
  shows "insertSorted cmp x ys = insort_key key x ys"
  by (induction ys) (simp_all add: assms)

lemma arraySort_sort_key:
  assumes "\<And>x y. cmp x y \<le> 0 \<longleftrightarrow> key x \<le> key y"
  shows "arraySort cmp xs = sort_key key xs"
  by (induction xs) (simp_all add: arraySort_def insertSorted_insort_key [of cmp key, OF assms])


lemma compareRows_le: "compareRows a b \<le> 0 \<longleftrightarrow> rowKey a \<le> rowKey b"
  by (auto simp: compareRows_def rowKey_def Let_def less_eq_prod_def)

lemma arraySort_rows: "arraySort compareRows rows = sort_key rowKey rows"
  by (rule arraySort_sort_key) (rule compareRows_le)

lemma set_ownKeysOrder: "set (ownKeysOrder G) = set G"
  by (auto simp: ownKeysOrder_def)

lemma distinct_ownKeysOrder: "distinct G \<Longrightarrow> distinct (ownKeysOrder G)"
  by (auto simp: ownKeysOrder_def)

lemma distinct_map_fst_ownKeysOrder:
  assumes "distinct (map fst G)"
  shows "distinct (map fst (ownKeysOrder G))"
proof -
  from assms have "distinct G" "inj_on fst (set G)" by (simp_all add: distinct_map)
  then show ?thesis by (simp add: distinct_map distinct_ownKeysOrder set_ownKeysOrder)
qed

lemma map_insort_key:
  "map g (insort_key (\<lambda>a. f (g a)) x xs) = insort_key f (g x) (map g xs)"
  by (induction xs) simp_all

lemma map_sort_key: "map g (sort_key (\<lambda>a. f (g a)) xs) = sort_key f (map g xs)"
  by (induction xs) (simp_all add: map_insort_key)

lemma indexOf_fst: "indexOf kv = indexOf (fst kv, ())"
  by (simp add: indexOf_def)

lemma map_fst_ownKeysOrder: "map fst (ownKeysOrder G) = keyOrder (map fst G)"
proof -
  let ?u = "\<lambda>kv :: string \<times> 'a. (fst kv, ())"
  have "(indexOf :: string \<times> 'a \<Rightarrow> nat) = (\<lambda>kv. indexOf (?u kv))"
    by (rule ext) (simp add: indexOf_def)
  then have "sort_key indexOf xs = sort_key (\<lambda>kv. indexOf (?u kv)) xs"
    for xs :: "(string \<times> 'a) list"
    by (rule arg_cong)
  then have "map ?u (ownKeysOrder G) = ownKeysOrder (map ?u G)"
    unfolding ownKeysOrder_def
    by (simp add: map_sort_key [of ?u indexOf] filter_map o_def)
  then have "map fst (map ?u (ownKeysOrder G)) = map fst (ownKeysOrder (map ?u G))" by simp
  then show ?thesis by (simp add: keyOrder_def o_def)
qed

lemma keyOrder_no_index:
  assumes "\<forall>k\<in>set ks. arrayIndex k = None"
  shows "keyOrder ks = ks"
proof -
  have "filter (\<lambda>kv. arrayIndex (fst kv) \<noteq> None) (map (\<lambda>k. (k, ())) ks) = []"
    using assms by (auto simp: filter_empty_conv)
  moreover have "filter (\<lambda>kv. arrayIndex (fst kv) = None) (map (\<lambda>k. (k, ())) ks) = map (\<lambda>k. (k, ())) ks"
    using assms by (auto simp: filter_id_conv)
  ultimately show ?thesis by (simp add: keyOrder_def ownKeysOrder_def o_def)
qed

lemma set_keyOrder: "set (keyOrder ks) = set ks"
  by (force simp: keyOrder_def set_ownKeysOrder)

section \<open>From groups to rows\<close>

lemma groupInv_entry:
  assumes "groupInv bs bt es G" "(k, g) \<in> set G"
  shows "g_deals g = filter (\<lambda>e. e_buyer_id e = k) (filter (matches bs bt) es)"
    and "List.find (\<lambda>b. b_id b = k) bs = Some (g_buyer g)"
    and "b_id (g_buyer g) = k"
    and "g_deals g \<noteq> []"
    and "bt = All \<or> bt = Only (b_buyer_type (g_buyer g))"
proof -
  let ?Q = "filter (matches bs bt) es"
  from assms show d: "g_deals g = filter (\<lambda>e. e_buyer_id e = k) ?Q"
    and f: "List.find (\<lambda>b. b_id b = k) bs = Some (g_buyer g)"
    by (auto simp: groupInv_def list_all_iff)
  from f show "b_id (g_buyer g) = k" by (rule find_id)
  from assms have "k \<in> set (map fst G)" by force
  with assms(1) have "k \<in> set (map e_buyer_id ?Q)"
    by (simp add: groupInv_def set_firstOccurrences)
  then obtain e where e: "e \<in> set ?Q" "e_buyer_id e = k" by auto
  then have "e \<in> set (g_deals g)" by (simp add: d)
  then show "g_deals g \<noteq> []" by auto
  from e have "matches bs bt e" by simp
  with e(2) f show "bt = All \<or> bt = Only (b_buyer_type (g_buyer g))"
    by (simp add: matches_def)
qed

lemma computeResults_Inr:
  assumes "computeResults clk bs ps es c r m bt = Inr rows"
  obtains G where
    "groupInv bs bt (filter (retained ps (monthsAgo clk m) c r) es) G"
    "rows = sort_key rowKey (map toRow (objectValues G))"
proof -
  from assms obtain filtered G where
    f: "filterEvents ps (monthsAgo clk m) c r es = Inr filtered"
    and g: "groupLoop bs bt filtered [] = Inr G"
    and rows: "rows = arraySort compareRows (map toRow (objectValues G))"
    by (auto simp: computeResults_def Let_def split: sum.splits)
  from filterEvents_Inr [OF f] have "filtered = filter (retained ps (monthsAgo clk m) c r) es"
    by simp
  with groupLoop_inv [OF g] rows that show thesis by (simp add: arraySort_rows)
qed

lemma groupInv_keys:
  "groupInv bs bt (filter (retained ps (monthsAgo clk m) c r) es) G \<Longrightarrow>
     map fst G = firstOccurrences (map e_buyer_id (qualifying clk bs ps es c r m bt))"
  by (simp add: groupInv_def qualifying_def)

lemma row_ids:
  assumes "groupInv bs bt es G"
  shows "map r_id (map toRow (objectValues G)) = keyOrder (map fst G)"
proof -
  have "r_id (toRow (snd kg)) = fst kg" if "kg \<in> set (ownKeysOrder G)" for kg
  proof -
    from that have "(fst kg, snd kg) \<in> set G" by (simp add: set_ownKeysOrder)
    from groupInv_entry(3) [OF assms this] show ?thesis by (simp add: toRow_def)
  qed
  then have "map (\<lambda>kg. r_id (toRow (snd kg))) (ownKeysOrder G) = map fst (ownKeysOrder G)"
    by simp
  then show ?thesis by (simp add: objectValues_def o_def map_fst_ownKeysOrder)
qed

lemma distinct_keyOrder: "distinct ks \<Longrightarrow> distinct (keyOrder ks)"
proof -
  assume "distinct ks"
  then have "distinct (map fst (map (\<lambda>k. (k, ())) ks))" by (simp add: o_def)
  then show ?thesis unfolding keyOrder_def by (rule distinct_map_fst_ownKeysOrder)
qed

lemma distinct_map_sort_key:
  "distinct (map f xs) \<Longrightarrow> distinct (map f (sort_key k xs))"
  by (simp add: distinct_map)

lemma row_from_group:
  assumes "groupInv bs bt es G" "r \<in> set (sort_key rowKey (map toRow (objectValues G)))"
  obtains g where "(r_id r, g) \<in> set G" "r = toRow g"
proof -
  from assms(2) obtain kg where kg: "kg \<in> set G" "r = toRow (snd kg)"
    by (auto simp: objectValues_def set_ownKeysOrder)
  then have m: "(fst kg, snd kg) \<in> set G" by simp
  from groupInv_entry(3) [OF assms(1) m] kg(2) have "r_id r = fst kg" by (simp add: toRow_def)
  with m have "(r_id r, snd kg) \<in> set G" by simp
  then show thesis using kg(2) by (rule that)
qed


section \<open>Ranking, failures and the boundary\<close>

lemma rowKey_le:
  "rowKey a \<le> rowKey b \<longleftrightarrow>
     r_deals_count a > r_deals_count b
     \<or> (r_deals_count a = r_deals_count b \<and> r_last_deal a \<ge> r_last_deal b)"
  by (auto simp: rowKey_def less_eq_prod_def)

lemma rowKey_eq:
  "rowKey r = (- int n, - t) \<longleftrightarrow> r_deals_count r = n \<and> r_last_deal r = t"
  by (auto simp: rowKey_def)

lemma sorted_rows:
  "sorted_wrt (\<lambda>a b. r_deals_count a > r_deals_count b
        \<or> (r_deals_count a = r_deals_count b \<and> r_last_deal a \<ge> r_last_deal b))
     (sort_key rowKey rows)"
proof -
  have "sorted (map rowKey (sort_key rowKey rows))" by (rule sorted_sort_key)
  then have "sorted_wrt (\<lambda>a b. rowKey a \<le> rowKey b) (sort_key rowKey rows)"
    by (simp add: sorted_map)
  then show ?thesis by (simp add: rowKey_le)
qed

lemma tied_rows_stable:
  "filter (\<lambda>r. r_deals_count r = n \<and> r_last_deal r = t) (sort_key rowKey rows)
     = filter (\<lambda>r. r_deals_count r = n \<and> r_last_deal r = t) rows"
  using sort_key_stable [of rowKey "(- int n, - t)" rows] by (simp add: rowKey_eq)

lemma subseq_map_filter: "subseq (map f (filter P xs)) (map f xs)"
  by (intro subseq_map subseq_filter_left)

lemma groupStep_known:
  assumes "buyerKnown bs ev"
  shows "\<exists>G'. groupStep bs bt ev G = Inr G'"
proof -
  from assms obtain buyer where fb: "List.find (\<lambda>b. b_id b = e_buyer_id ev) bs = Some buyer"
    and np: "e_buyer_id ev \<notin> set protoKeys"
    by (auto simp: buyerKnown_def)
  from find_id [OF fb] np have "b_id buyer \<notin> set protoKeys" by simp
  then show ?thesis by (simp add: groupStep_def fb Let_def)
qed

lemma groupLoop_known:
  "list_all (buyerKnown bs) es \<Longrightarrow> \<exists>G'. groupLoop bs bt es G = Inr G'"
proof (induction es arbitrary: G)
  case Nil
  then show ?case by simp
next
  case (Cons ev es)
  then obtain G1 where "groupStep bs bt ev G = Inr G1"
    using groupStep_known [of bs ev bt G] by auto
  with Cons show ?case by simp
qed

lemma groupLoop_missing:
  "\<exists>e\<in>set es. List.find (\<lambda>b. b_id b = e_buyer_id e) bs = None \<Longrightarrow>
     groupLoop bs bt es G = Inl TypeError"
proof (induction es arbitrary: G)
  case Nil
  then show ?case by simp
next
  case (Cons ev es)
  show ?case
  proof (cases "groupStep bs bt ev G")
    case (Inl err)
    then show ?thesis by (cases err) simp
  next
    case (Inr G1)
    then have "List.find (\<lambda>b. b_id b = e_buyer_id ev) bs \<noteq> None"
      by (auto simp: groupStep_def split: option.splits)
    with Cons.prems have "\<exists>e\<in>set es. List.find (\<lambda>b. b_id b = e_buyer_id e) bs = None" by auto
    from Cons.IH [OF this] Inr show ?thesis by simp
  qed
qed

lemma distanceMiles_nonneg: "distanceMiles a b = Some d \<Longrightarrow> 0 \<le> d"
proof -
  assume "distanceMiles a b = Some d"
  then obtain h where h: "0 \<le> h" "h \<le> 1" and d: "d = 2 * 3958.8 * arcsin (sqrt h)"
    by (auto simp: distanceMiles_def Let_def split: if_splits)
  from h have "0 \<le> sqrt h" "sqrt h \<le> 1" by simp_all
  then have "arcsin 0 \<le> arcsin (sqrt h)" by (intro arcsin_le_arcsin) simp_all
  then show ?thesis by (simp add: d)
qed

lemma not_retained_negative: "radiusMiles < 0 \<Longrightarrow> \<not> retained ps since c radiusMiles e"
  by (auto simp: retained_def keepEvent_def num_le_def split: option.splits
        dest!: distanceMiles_nonneg)

lemma circleLoop_length:
  "length (circleLoop lon lat r points i coords) = length coords + (Suc points - i)"
proof (induction lon lat r points i coords rule: circleLoop.induct)
  case (1 lon lat r points i coords)
  show ?case
  proof (cases "i \<le> points")
    case True
    with 1 show ?thesis by (subst circleLoop.simps) simp
  next
    case False
    then show ?thesis by (subst circleLoop.simps) simp
  qed
qed

lemma circlePolygon_length: "length (circlePolygon lon lat r points) = points + 1"
  by (simp add: circlePolygon_def circleLoop_length)

section \<open>The boundary ring in exact arithmetic\<close>

text \<open>
  The loop of \<open>circlePolygon\<close> pushes one point for each \<open>i\<close> from 0 to
  \<open>points\<close>. Over the reals the bearings 0 and \<open>2 * pi\<close> give the same point,
  so the ring of the model closes for every positive \<open>points\<close>. The
  coordinates of the program are IEEE doubles, where \<open>Math.sin(2 * Math.PI)\<close>
  is about -2.45e-16 and not 0: the ring of the code does not close where the
  longitude is small enough for that to show, as at longitude 0. The closure
  lemma below is a fact of the exact formula, not of the code.
\<close>

lemma circleLoop_map:
  "circleLoop lon lat r points i coords
     = coords @ map (circlePoint lon lat r points) [i..<Suc points]"
proof (induction lon lat r points i coords rule: circleLoop.induct)
  case (1 lon lat r points i coords)
  show ?case
  proof (cases "i \<le> points")
    case True
    then have "[i..<Suc points] = i # [Suc i..<Suc points]" by (simp add: upt_conv_Cons)
    with 1 True show ?thesis by (subst circleLoop.simps) simp
  next
    case False
    then show ?thesis by (subst circleLoop.simps) simp
  qed
qed

lemma circlePolygon_map:
  "circlePolygon lon lat r points = map (circlePoint lon lat r points) [0..<Suc points]"
  by (simp add: circlePolygon_def circleLoop_map)

lemma circlePoint_full_turn:
  "0 < points \<Longrightarrow> circlePoint lon lat r points points = circlePoint lon lat r points 0"
  by (simp add: circlePoint_def Let_def)

lemma circlePolygon_closed_exact:
  assumes "0 < points"
  shows "hd (circlePolygon lon lat r points) = last (circlePolygon lon lat r points)"
proof -
  have "hd (circlePolygon lon lat r points) = circlePoint lon lat r points 0"
    unfolding circlePolygon_map by (simp add: hd_map upt_conv_Cons del: upt_Suc)
  moreover have "last (circlePolygon lon lat r points) = circlePoint lon lat r points points"
    unfolding circlePolygon_map by (simp add: last_map)
  ultimately show ?thesis by (simp add: circlePoint_full_turn [OF assms])
qed

section \<open>Radius monotonicity\<close>

text \<open>
  C6. For a fixed center, months and category, and radii \<open>r1 < r2\<close>, the
  number of events retained by the filter at radius \<open>r1\<close> is at most the number
  retained at radius \<open>r2\<close>: when the filter returns at \<open>r1\<close>, it returns at
  \<open>r2\<close> too, with at least as many events. (The category is not read by the
  filter of lines 119 to 124.)
\<close>

theorem radius_monotone:
  assumes "r1 < r2"
    and "filterEvents properties (monthsAgo clk months) center r1 events = Inr xs"
  shows "\<exists>ys. filterEvents properties (monthsAgo clk months) center r2 events = Inr ys
           \<and> length xs \<le> length ys"
proof -
  from filterEvents_Inr [OF assms(2)]
  have res: "list_all (resolved properties) events"
    and xs: "xs = filter (retained properties (monthsAgo clk months) center r1) events"
    by simp_all
  have "length xs
          \<le> length (filter (retained properties (monthsAgo clk months) center r2) events)"
    unfolding xs using assms(1)
    by (intro length_filter_mono retained_radius_mono [of r1 r2]) simp_all
  with filterEvents_resolved [OF res] show ?thesis by blast
qed

text \<open>
  On 1 October 2025, centred on 112 Blanco Rd, with the events e1 and e6 of
  that property: e1 is retained at 1 mile, and at 2 miles.
\<close>

theorem radius_monotone_witness:
  "(1::real) < 2 \<and>
   filterEvents seedProperties
     (monthsAgo oct2025 12)
     blancoRd 1 [ev_e1, ev_e6] = Inr [ev_e1] \<and>
   (\<exists>ys. filterEvents seedProperties
     (monthsAgo oct2025 12)
     blancoRd 2 [ev_e1, ev_e6] = Inr ys
       \<and> length [ev_e1] \<le> length ys)"
proof -
  have h1: "(1::real) < 2" by simp
  have h2: "filterEvents seedProperties
     (monthsAgo oct2025 12)
     blancoRd 1 [ev_e1, ev_e6] = Inr [ev_e1]"
    by (simp add: eval_defs seed_defs date_defs distanceMiles_self)
  from radius_monotone [OF h1 h2] h1 h2 show ?thesis by blast
qed

section \<open>Time monotonicity\<close>

text \<open>
  C7 as stated fails. \<open>setMonth\<close> clips its result to the range of time values,
  8.64e15 milliseconds either side of the epoch; 4000000 months before October
  2025 is outside it, \<open>since\<close> is an invalid date, and every comparison with it
  is false. The 12-month window retains e1, the 4000000-month window nothing.
\<close>

theorem months_monotone_counterexample:
  "(12::int) < 4000000 \<and>
   filterEvents seedProperties
     (monthsAgo oct2025 12)
     blancoRd 1 [ev_e1, ev_e6] = Inr [ev_e1] \<and>
   filterEvents seedProperties
     (monthsAgo oct2025 4000000)
     blancoRd 1 [ev_e1, ev_e6] = Inr [] \<and>
   \<not> length [ev_e1] \<le> length ([] :: BuyerEvent list)"
  by (simp add: eval_defs seed_defs date_defs distanceMiles_self)

text \<open>
  C7, amended. For a fixed center, radius and category, and month windows
  \<open>m1 < m2\<close> where the \<open>m2\<close> window's \<open>since\<close> is a valid date, the number
  of events retained for \<open>m1\<close> is at most the number retained for \<open>m2\<close>:
  when the filter returns for \<open>m1\<close>, it returns for \<open>m2\<close> too, with at least
  as many events.
\<close>

theorem months_monotone_in_range:
  assumes "m1 < m2"
    and "monthsAgo clk m2 \<noteq> None"
    and "filterEvents properties (monthsAgo clk m1) center radiusMiles events = Inr xs"
  shows "\<exists>ys. filterEvents properties (monthsAgo clk m2) center radiusMiles events = Inr ys
           \<and> length xs \<le> length ys"
proof -
  from filterEvents_Inr [OF assms(3)]
  have res: "list_all (resolved properties) events"
    and xs: "xs = filter (retained properties (monthsAgo clk m1) center radiusMiles) events"
    by simp_all
  have "length xs
          \<le> length (filter (retained properties (monthsAgo clk m2) center radiusMiles) events)"
    unfolding xs using assms(1,2)
    by (intro length_filter_mono retained_months_mono [of m1 m2]) simp_all
  with filterEvents_resolved [OF res] show ?thesis by blast
qed

text \<open>The windows of 12 and 24 months on 1 October 2025.\<close>

theorem months_monotone_in_range_witness:
  "(12::int) < 24 \<and>
   monthsAgo oct2025 24
     \<noteq> None \<and>
   filterEvents seedProperties
     (monthsAgo oct2025 12)
     blancoRd 1 [ev_e1, ev_e6] = Inr [ev_e1] \<and>
   (\<exists>ys. filterEvents seedProperties
     (monthsAgo oct2025 24)
     blancoRd 1 [ev_e1, ev_e6] = Inr ys
       \<and> length [ev_e1] \<le> length ys)"
proof -
  have h1: "(12::int) < 24" by simp
  have h2: "monthsAgo oct2025 24
              \<noteq> None"
    by (simp add: oct2025_def date_defs)
  have h3: "filterEvents seedProperties
     (monthsAgo oct2025 12)
     blancoRd 1 [ev_e1, ev_e6] = Inr [ev_e1]"
    by (simp add: eval_defs seed_defs date_defs distanceMiles_self)
  from months_monotone_in_range [OF h1 h2 h3] h1 h2 h3 show ?thesis by blast
qed

section \<open>Median price\<close>



section \<open>Category partition\<close>

text \<open>
  C3. For every query whose category parameter \<open>c\<close> is not \<open>"all"\<close>, every
  row of the returned sequence has category \<open>c\<close>.
\<close>

theorem category_partition:
  assumes "computeResults clk buyers properties events center radiusMiles months (Only c) = Inr rows"
    and "r \<in> set rows"
  shows "r_buyer_type r = c"
proof -
  from assms(1) obtain G where
    inv: "groupInv buyers (Only c)
            (filter (retained properties (monthsAgo clk months) center radiusMiles) events) G"
    and rows: "rows = sort_key rowKey (map toRow (objectValues G))"
    by (rule computeResults_Inr)
  from assms(2) obtain g where g: "(r_id r, g) \<in> set G" "r = toRow g"
    unfolding rows by (rule row_from_group [OF inv])
  from groupInv_entry(5) [OF inv g(1)] g(2) show ?thesis by (simp add: toRow_def)
qed

text \<open>With the category flipper, the cash buyer b3 has no row.\<close>

theorem category_partition_witness:
  "computeResults oct2025 seedBuyers seedProperties [ev_e1, ev_e6, ev_e2_p1] blancoRd 1 24
     (Only Flipper) = Inr [row_b1_two] \<and>
   row_b1_two \<in> set [row_b1_two] \<and>
   r_buyer_type row_b1_two = Flipper"
proof -
  have h1: "computeResults oct2025 seedBuyers seedProperties [ev_e1, ev_e6, ev_e2_p1] blancoRd 1 24
     (Only Flipper) = Inr [row_b1_two]"
    by (simp add: eval_defs seed_defs example_defs date_defs distanceMiles_self)
  have h2: "row_b1_two \<in> set [row_b1_two]"
    by simp
  from category_partition [OF h1 h2] h1 h2 show ?thesis by blast
qed

section \<open>One row per buyer\<close>

text \<open>
  C10. For every query, each buyer id appears in at most one row of the
  returned sequence, however many retained events the buyer has.
\<close>

theorem buyer_ids_distinct:
  assumes "computeResults clk buyers properties events center radiusMiles months buyerType = Inr rows"
  shows "distinct (map r_id rows)"
proof -
  from assms obtain G where
    inv: "groupInv buyers buyerType
            (filter (retained properties (monthsAgo clk months) center radiusMiles) events) G"
    and rows: "rows = sort_key rowKey (map toRow (objectValues G))"
    by (rule computeResults_Inr)
  from inv have "distinct (map fst G)"
    by (simp add: groupInv_def distinct_firstOccurrences)
  then have "distinct (map r_id (map toRow (objectValues G)))"
    by (simp only: row_ids [OF inv] distinct_keyOrder)
  then show ?thesis unfolding rows by (rule distinct_map_sort_key)
qed

text \<open>The two purchases of b1 are one row.\<close>

theorem buyer_ids_distinct_witness:
  "computeResults oct2025 seedBuyers seedProperties [ev_e1, ev_e6, ev_e2_p1] blancoRd 1 24 All
     = Inr [row_b1_two, row_b3] \<and>
   distinct (map r_id [row_b1_two, row_b3])"
proof -
  have h1: "computeResults oct2025 seedBuyers seedProperties [ev_e1, ev_e6, ev_e2_p1] blancoRd 1 24 All
     = Inr [row_b1_two, row_b3]"
    by (simp add: eval_defs seed_defs example_defs date_defs distanceMiles_self)
  from buyer_ids_distinct [OF h1] h1 show ?thesis by blast
qed

section \<open>Ranking\<close>

text \<open>
  C2 as stated fails on its third key. The rows are the values of the object
  \<open>byBuyer\<close> in the order of \<open>Object.values\<close>, sorted stably; an object
  enumerates the keys that are array indices first, in ascending numeric order.
  The buyer with id \<open>"2"\<close> has the first qualifying event and the buyer with
  id \<open>"1"\<close> the second, they tie on deal count and last deal date, and the row
  of \<open>"1"\<close> comes first.
\<close>

theorem ranking_order_counterexample:
  "computeResults oct2025 [buyer_2, buyer_1] seedProperties [ev_e1_2, ev_e8_1] blancoRd 1 12 All
     = Inr [row_1, row_2] \<and>
   r_deals_count row_1 = r_deals_count row_2 \<and>
   r_last_deal row_1 = r_last_deal row_2 \<and>
   map r_id [row_1, row_2] = [''1'', ''2''] \<and>
   firstOccurrences (map e_buyer_id
     (qualifying oct2025 [buyer_2, buyer_1] seedProperties [ev_e1_2, ev_e8_1] blancoRd 1 12 All))
     = [''2'', ''1''] \<and>
   \<not> subseq [''1'', ''2''] [''2'', ''1'']"
proof -
  have h1: "computeResults oct2025 [buyer_2, buyer_1] seedProperties [ev_e1_2, ev_e8_1] blancoRd 1 12 All
     = Inr [row_1, row_2]"
    by (simp add: eval_defs seed_defs example_defs date_defs distanceMiles_self)
  have h2: "firstOccurrences (map e_buyer_id
     (qualifying oct2025 [buyer_2, buyer_1] seedProperties [ev_e1_2, ev_e8_1] blancoRd 1 12 All))
     = [''2'', ''1'']"
    by (simp add: qualifying_def retained_def matches_def firstOccurrences_def eval_defs seed_defs
          example_defs date_defs distanceMiles_self)
  have h3: "\<not> subseq [''1'', ''2''] [''2'', ''1'']"
    by (simp add: subseq_Cons2_iff)
  have h4: "r_deals_count row_1 = r_deals_count row_2" "r_last_deal row_1 = r_last_deal row_2"
    "map r_id [row_1, row_2] = [''1'', ''2'']"
    by (simp_all add: example_defs)
  from h1 h2 h3 h4 show ?thesis by blast
qed

text \<open>
  C2, amended. The rows returned by a query are sorted descending by deal
  count and, among rows with equal deal count, descending by last deal date;
  among rows tied on both keys, the relative order is the order in which the
  object \<open>byBuyer\<close> enumerates its keys: the buyer ids that are array indices
  first, in ascending numeric order, then the other ids in group-construction
  order (the order in which each buyer's first qualifying event appears). When
  no qualifying buyer id is an array index, tied rows are in group-construction
  order.
\<close>

theorem ranking_order:
  assumes "computeResults clk buyers properties events center radiusMiles months buyerType = Inr rows"
  shows "sorted_wrt (\<lambda>a b. r_deals_count a > r_deals_count b
            \<or> (r_deals_count a = r_deals_count b \<and> r_last_deal a \<ge> r_last_deal b)) rows
       \<and> subseq (map r_id (filter (\<lambda>r. r_deals_count r = n \<and> r_last_deal r = t) rows))
           (keyOrder (firstOccurrences (map e_buyer_id
              (qualifying clk buyers properties events center radiusMiles months buyerType))))
       \<and> ((\<forall>e \<in> set (qualifying clk buyers properties events center radiusMiles months buyerType).
              arrayIndex (e_buyer_id e) = None) \<longrightarrow>
           subseq (map r_id (filter (\<lambda>r. r_deals_count r = n \<and> r_last_deal r = t) rows))
             (firstOccurrences (map e_buyer_id
                (qualifying clk buyers properties events center radiusMiles months buyerType))))"
proof -
  let ?Q = "qualifying clk buyers properties events center radiusMiles months buyerType"
  let ?tied = "\<lambda>r. r_deals_count r = n \<and> r_last_deal r = t"
  from assms obtain G where
    inv: "groupInv buyers buyerType
            (filter (retained properties (monthsAgo clk months) center radiusMiles) events) G"
    and rows: "rows = sort_key rowKey (map toRow (objectValues G))"
    by (rule computeResults_Inr)
  have srt: "sorted_wrt (\<lambda>a b. r_deals_count a > r_deals_count b
            \<or> (r_deals_count a = r_deals_count b \<and> r_last_deal a \<ge> r_last_deal b)) rows"
    unfolding rows by (rule sorted_rows)
  have "map r_id (map toRow (objectValues G)) = keyOrder (firstOccurrences (map e_buyer_id ?Q))"
    by (simp only: row_ids [OF inv] groupInv_keys [OF inv])
  moreover have "subseq (map r_id (filter ?tied rows)) (map r_id (map toRow (objectValues G)))"
    unfolding rows tied_rows_stable by (rule subseq_map_filter)
  ultimately have tie: "subseq (map r_id (filter ?tied rows))
      (keyOrder (firstOccurrences (map e_buyer_id ?Q)))"
    by simp
  have "subseq (map r_id (filter ?tied rows)) (firstOccurrences (map e_buyer_id ?Q))"
    if "\<forall>e \<in> set ?Q. arrayIndex (e_buyer_id e) = None"
  proof -
    have "keyOrder (firstOccurrences (map e_buyer_id ?Q)) = firstOccurrences (map e_buyer_id ?Q)"
      by (rule keyOrder_no_index) (use that in \<open>auto simp: set_firstOccurrences\<close>)
    with tie show ?thesis by simp
  qed
  with srt tie show ?thesis by blast
qed

text \<open>
  The buyers b1 and b4 tie with one purchase each on 21 July 2025 and stay in
  the order of their first events; b3, whose purchase is older, comes last.
\<close>

theorem ranking_order_witness:
  "computeResults oct2025 seedBuyers seedProperties [ev_e1, ev_e8, ev_e6] blancoRd 1 24 All
     = Inr [row_b1, row_b4, row_b3] \<and>
   qualifying oct2025 seedBuyers seedProperties [ev_e1, ev_e8, ev_e6] blancoRd 1 24 All
     = [ev_e1, ev_e8, ev_e6] \<and>
   map (\<lambda>e. arrayIndex (e_buyer_id e)) [ev_e1, ev_e8, ev_e6] = [None, None, None] \<and>
   firstOccurrences (map e_buyer_id [ev_e1, ev_e8, ev_e6]) = [''b1'', ''b4'', ''b3''] \<and>
   sorted_wrt (\<lambda>a b. r_deals_count a > r_deals_count b
       \<or> (r_deals_count a = r_deals_count b \<and> r_last_deal a \<ge> r_last_deal b))
     [row_b1, row_b4, row_b3] \<and>
   filter (\<lambda>r. r_deals_count r = 1 \<and> r_last_deal r = 1753056000000) [row_b1, row_b4, row_b3]
     = [row_b1, row_b4] \<and>
   subseq (map r_id [row_b1, row_b4]) [''b1'', ''b4'', ''b3'']"
proof -
  have h1: "computeResults oct2025 seedBuyers seedProperties [ev_e1, ev_e8, ev_e6] blancoRd 1 24 All
     = Inr [row_b1, row_b4, row_b3]"
    by (simp add: eval_defs seed_defs example_defs date_defs distanceMiles_self)
  have q: "qualifying oct2025 seedBuyers seedProperties [ev_e1, ev_e8, ev_e6] blancoRd 1 24 All
      = [ev_e1, ev_e8, ev_e6]"
    by (simp add: qualifying_def retained_def matches_def firstOccurrences_def eval_defs seed_defs
          example_defs date_defs distanceMiles_self)
  have h2: "map (\<lambda>e. arrayIndex (e_buyer_id e)) [ev_e1, ev_e8, ev_e6] = [None, None, None]"
    by (simp add: eval_defs seed_defs example_defs date_defs distanceMiles_self)
  then have h2': "\<forall>e \<in> set (qualifying oct2025 seedBuyers seedProperties [ev_e1, ev_e8, ev_e6] blancoRd 1 24 All).
      arrayIndex (e_buyer_id e) = None"
    unfolding q by simp
  have h3: "firstOccurrences (map e_buyer_id [ev_e1, ev_e8, ev_e6]) = [''b1'', ''b4'', ''b3'']"
    by (simp add: qualifying_def retained_def matches_def firstOccurrences_def eval_defs seed_defs
          example_defs date_defs distanceMiles_self)
  have h4: "filter (\<lambda>r. r_deals_count r = 1 \<and> r_last_deal r = 1753056000000) [row_b1, row_b4, row_b3]
     = [row_b1, row_b4]"
    by (simp add: example_defs)
  from ranking_order [OF h1, of 1 1753056000000] h2'
  have "sorted_wrt (\<lambda>a b. r_deals_count a > r_deals_count b
       \<or> (r_deals_count a = r_deals_count b \<and> r_last_deal a \<ge> r_last_deal b))
     [row_b1, row_b4, row_b3] \<and>
   subseq (map r_id (filter (\<lambda>r. r_deals_count r = 1 \<and> r_last_deal r = 1753056000000)
     [row_b1, row_b4, row_b3]))
     (firstOccurrences (map e_buyer_id
       (qualifying oct2025 seedBuyers seedProperties [ev_e1, ev_e8, ev_e6] blancoRd 1 24 All)))"
    by blast
  then have "sorted_wrt (\<lambda>a b. r_deals_count a > r_deals_count b
       \<or> (r_deals_count a = r_deals_count b \<and> r_last_deal a \<ge> r_last_deal b))
     [row_b1, row_b4, row_b3] \<and>
   subseq (map r_id [row_b1, row_b4]) [''b1'', ''b4'', ''b3'']"
    by (simp only: q h3 h4)
  with h1 q h2 h3 h4 show ?thesis by (intro conjI) (simp_all only: simp_thms)
qed

section \<open>Determinism\<close>

text \<open>
  C4 as stated fails. \<open>computeResults\<close> calls \<open>monthsAgo\<close>, which reads the
  clock with \<open>new Date()\<close>; the same data and the same parameters give the row
  of b1 on 1 October 2025 and no row on 1 October 2027.
\<close>

theorem determinism_counterexample:
  "computeResults oct2025 seedBuyers seedProperties [ev_e1, ev_e6] blancoRd 1 12 All = Inr [row_b1] \<and>
   computeResults (oct2025\<lparr>now_year := 2027\<rparr>) seedBuyers seedProperties [ev_e1, ev_e6]
     blancoRd 1 12 All = Inr []"
  by (simp add: eval_defs seed_defs example_defs date_defs distanceMiles_self)

text \<open>
  C4, amended. The query computation is a function of the reference data,
  the query parameters (center, radiusMiles, months, category) and the clock
  reading of \<open>monthsAgo\<close>, and the clock reaches the output only through the
  time test \<open>event_date >= since\<close> of the filter: two calls with identical
  reference data and parameters, at clock readings under which every event
  passes or fails the time test alike, produce identical output sequences, the
  relative order of tied buyers included. The since dates themselves may
  differ.
\<close>

theorem clock_only_through_time_test:
  assumes "\<forall>e\<in>set events.
             date_ge (newDate (e_event_date e)) (monthsAgo clk1 months)
               = date_ge (newDate (e_event_date e)) (monthsAgo clk2 months)"
  shows "computeResults clk1 buyers properties events center radiusMiles months buyerType
           = computeResults clk2 buyers properties events center radiusMiles months buyerType"
proof -
  have "filterEvents properties (monthsAgo clk1 months) center radiusMiles events
          = filterEvents properties (monthsAgo clk2 months) center radiusMiles events"
    using assms by (rule filterEvents_time_cong)
  then show ?thesis by (simp add: computeResults_def)
qed

text \<open>
  The readings of 1 October 2025, 00:00, and of 15 October 2025, 12:00, have
  different since dates, 1 October 2024 and 15 October 2024 at noon. The
  purchase e1 of July 2025 passes the time test under both and the purchase e6
  of September 2024 under neither, and both calls return the row of b1.
\<close>

theorem clock_only_through_time_test_witness:
  "monthsAgo oct2025 12 = Some 1727740800000 \<and>
   monthsAgo (oct2025\<lparr>now_date := 15, now_time := 43200000\<rparr>) 12 = Some 1728993600000 \<and>
   map (\<lambda>e. date_ge (newDate (e_event_date e)) (monthsAgo oct2025 12)) [ev_e1, ev_e6]
     = [True, False] \<and>
   map (\<lambda>e. date_ge (newDate (e_event_date e))
               (monthsAgo (oct2025\<lparr>now_date := 15, now_time := 43200000\<rparr>) 12)) [ev_e1, ev_e6]
     = [True, False] \<and>
   computeResults oct2025 seedBuyers seedProperties [ev_e1, ev_e6] blancoRd 1 12 All
     = Inr [row_b1] \<and>
   computeResults (oct2025\<lparr>now_date := 15, now_time := 43200000\<rparr>) seedBuyers seedProperties
       [ev_e1, ev_e6] blancoRd 1 12 All
     = computeResults oct2025 seedBuyers seedProperties [ev_e1, ev_e6] blancoRd 1 12 All"
proof -
  have s1: "monthsAgo oct2025 12 = Some 1727740800000"
    by (simp add: oct2025_def date_defs)
  have s2: "monthsAgo (oct2025\<lparr>now_date := 15, now_time := 43200000\<rparr>) 12 = Some 1728993600000"
    by (simp add: oct2025_def date_defs)
  have t1: "map (\<lambda>e. date_ge (newDate (e_event_date e)) (monthsAgo oct2025 12)) [ev_e1, ev_e6]
              = [True, False]"
    unfolding s1 by (simp add: seed_defs date_defs)
  have t2: "map (\<lambda>e. date_ge (newDate (e_event_date e))
               (monthsAgo (oct2025\<lparr>now_date := 15, now_time := 43200000\<rparr>) 12)) [ev_e1, ev_e6]
              = [True, False]"
    unfolding s2 by (simp add: seed_defs date_defs)
  have r1: "computeResults oct2025 seedBuyers seedProperties [ev_e1, ev_e6] blancoRd 1 12 All
              = Inr [row_b1]"
    by (simp add: eval_defs seed_defs example_defs date_defs distanceMiles_self)
  from t1 t2 have h: "\<forall>e\<in>set [ev_e1, ev_e6].
      date_ge (newDate (e_event_date e))
          (monthsAgo (oct2025\<lparr>now_date := 15, now_time := 43200000\<rparr>) 12)
        = date_ge (newDate (e_event_date e)) (monthsAgo oct2025 12)"
    by simp
  from clock_only_through_time_test [OF h] s1 s2 t1 t2 r1 show ?thesis by blast
qed

section \<open>Argument validation\<close>

text \<open>
  C8 as stated fails: neither function validates an argument or raises such
  an error. With radius 0 at the location of p1 the query returns the row of
  b1; with \<open>months = -1\<close> it returns the empty sequence; \<open>circlePolygon\<close> with
  radius 0 returns its 65 points.
\<close>

theorem argument_validation_counterexample:
  "(0::real) \<le> 0 \<and>
   computeResults oct2025 seedBuyers seedProperties [ev_e1, ev_e6] blancoRd 0 12 All
     = Inr [row_b1] \<and>
   (- 1 :: int) < 0 \<and>
   computeResults oct2025 seedBuyers seedProperties [ev_e1, ev_e6] blancoRd 1 (- 1) All = Inr [] \<and>
   length (circlePolygon (- 98.501) 29.462 0 64) = 65"
proof -
  have h1: "computeResults oct2025 seedBuyers seedProperties [ev_e1, ev_e6] blancoRd 0 12 All
              = Inr [row_b1]"
    by (simp add: eval_defs seed_defs example_defs date_defs distanceMiles_self)
  have h2: "computeResults oct2025 seedBuyers seedProperties [ev_e1, ev_e6] blancoRd 1 (- 1) All
              = Inr []"
    by (simp add: eval_defs seed_defs example_defs date_defs distanceMiles_self)
  have h3: "length (circlePolygon (- 98.501) 29.462 0 64) = 65"
    by (simp add: circlePolygon_length)
  from h1 h2 h3 show ?thesis by simp
qed

text \<open>
  C8, amended. A query never fails because of its arguments: whatever
  radiusMiles, months and category, on reference data in which every event's
  property and buyer are found (and no buyer id is a property name of
  \<open>Object.prototype\<close>) it returns a result sequence, the empty one when
  \<open>radiusMiles < 0\<close>; the boundary generator returns \<open>points + 1\<close> points for
  every radius, \<open>radiusMiles <= 0\<close> included. A category outside the five
  values is excluded by the parameter's type.
\<close>

theorem no_argument_validation:
  assumes "list_all (resolved properties) events" and "list_all (buyerKnown buyers) events"
  shows "(\<exists>rows. computeResults clk buyers properties events center radiusMiles months buyerType
                   = Inr rows \<and> (radiusMiles < 0 \<longrightarrow> rows = []))
         \<and> length (circlePolygon lon lat radiusMiles points) = points + 1"
proof -
  let ?F = "filter (retained properties (monthsAgo clk months) center radiusMiles) events"
  have f: "filterEvents properties (monthsAgo clk months) center radiusMiles events = Inr ?F"
    by (rule filterEvents_resolved [OF assms(1)])
  from assms(2) have "list_all (buyerKnown buyers) ?F" by (auto simp: list_all_iff)
  then obtain G where g: "groupLoop buyers buyerType ?F [] = Inr G"
    using groupLoop_known by blast
  have res: "computeResults clk buyers properties events center radiusMiles months buyerType
               = Inr (arraySort compareRows (map toRow (objectValues G)))"
    by (simp add: computeResults_def f g)
  have "arraySort compareRows (map toRow (objectValues G)) = []" if "radiusMiles < 0"
  proof -
    from that have "?F = []" by (auto simp: filter_empty_conv not_retained_negative)
    with g have "G = []" by simp
    then show ?thesis by (simp add: objectValues_def ownKeysOrder_def arraySort_def)
  qed
  with res show ?thesis by (simp add: circlePolygon_length)
qed

text \<open>The seeded data, with a negative radius and a negative number of months.\<close>

theorem no_argument_validation_witness:
  "list_all (resolved seedProperties) seedEvents \<and>
   list_all (buyerKnown seedBuyers) seedEvents \<and>
   computeResults oct2025 seedBuyers seedProperties seedEvents blancoRd (- 1) (- 1) All = Inr [] \<and>
   length (circlePolygon (- 98.501) 29.462 (- 1) 64) = 64 + 1"
proof -
  have h1: "list_all (resolved seedProperties) seedEvents"
    by (simp add: resolved_def seed_defs)
  have h2: "list_all (buyerKnown seedBuyers) seedEvents"
    by (simp add: buyerKnown_def protoKeys_def seed_defs)
  from no_argument_validation
         [where clk = oct2025 and center = blancoRd and radiusMiles = "- 1" and months = "- 1"
            and buyerType = All and lon = "- 98.501" and lat = "29.462" and points = 64,
          OF h1 h2]
  have "computeResults oct2025 seedBuyers seedProperties seedEvents blancoRd (- 1) (- 1) All
          = Inr [] \<and>
        length (circlePolygon (- 98.501) 29.462 (- 1) 64) = 64 + 1"
    by auto
  with h1 h2 show ?thesis by blast
qed

section \<open>Dangling references\<close>

text \<open>
  C9 as stated fails. The buyer of an event is looked up in the grouping loop,
  which runs over the retained events only. The second event below has a
  buyer id that no buyer has and a date outside the 12-month window: it is
  dropped by the filter and the query returns the row of b1.
\<close>

theorem dangling_reference_counterexample:
  "List.find (\<lambda>b. b_id b = e_buyer_id ev_e6_b9) seedBuyers = None \<and>
   computeResults oct2025 seedBuyers seedProperties [ev_e1, ev_e6_b9] blancoRd 1 12 All
     = Inr [row_b1]"
  by (simp add: eval_defs seed_defs example_defs date_defs distanceMiles_self)

text \<open>
  C9, amended. If an event of the dataset references a property id that is
  not in the reference collection, or an event retained by the filter (a
  purchase inside the time window and the radius) references a buyer id that
  is not in it, the query fails, with the \<open>TypeError\<close> of reading a field of
  \<open>undefined\<close>, the only error of the code. An event with an unknown buyer id
  that the filter does not retain raises nothing: when every event's property
  is found and the buyer of every retained event is known, the query returns a
  result sequence, whatever buyer ids the other events reference.
\<close>

theorem dangling_reference_outcome:
  "((\<exists>e\<in>set events. \<not> resolved properties e
        \<or> (retained properties (monthsAgo clk months) center radiusMiles e
           \<and> List.find (\<lambda>b. b_id b = e_buyer_id e) buyers = None))
      \<longrightarrow> computeResults clk buyers properties events center radiusMiles months buyerType
            = Inl TypeError)
   \<and> ((\<forall>e\<in>set events. resolved properties e
          \<and> (retained properties (monthsAgo clk months) center radiusMiles e
              \<longrightarrow> buyerKnown buyers e))
      \<longrightarrow> (\<exists>rows. computeResults clk buyers properties events center radiusMiles months
                     buyerType = Inr rows))"
proof (intro conjI impI)
  let ?F = "filter (retained properties (monthsAgo clk months) center radiusMiles) events"
  assume bad: "\<exists>e\<in>set events. \<not> resolved properties e
        \<or> (retained properties (monthsAgo clk months) center radiusMiles e
           \<and> List.find (\<lambda>b. b_id b = e_buyer_id e) buyers = None)"
  show "computeResults clk buyers properties events center radiusMiles months buyerType
          = Inl TypeError"
  proof (cases "list_all (resolved properties) events")
    case False
    from filterEvents_unresolved [OF this] show ?thesis by (simp add: computeResults_def)
  next
    case True
    with bad have "\<exists>e\<in>set ?F. List.find (\<lambda>b. b_id b = e_buyer_id e) buyers = None"
      by (auto simp: list_all_iff)
    from groupLoop_missing [OF this] filterEvents_resolved [OF True]
    show ?thesis by (simp add: computeResults_def)
  qed
next
  let ?F = "filter (retained properties (monthsAgo clk months) center radiusMiles) events"
  assume good: "\<forall>e\<in>set events. resolved properties e
          \<and> (retained properties (monthsAgo clk months) center radiusMiles e
              \<longrightarrow> buyerKnown buyers e)"
  then have res: "list_all (resolved properties) events" by (simp add: list_all_iff)
  from good have "list_all (buyerKnown buyers) ?F" by (simp add: list_all_iff)
  then obtain G where g: "groupLoop buyers buyerType ?F [] = Inr G"
    using groupLoop_known by blast
  from filterEvents_resolved [OF res] g
  have "computeResults clk buyers properties events center radiusMiles months buyerType
          = Inr (arraySort compareRows (map toRow (objectValues G)))"
    by (simp add: computeResults_def)
  then show "\<exists>rows. computeResults clk buyers properties events center radiusMiles months
                     buyerType = Inr rows"
    by blast
qed

text \<open>
  The event e1 with an unknown buyer id is retained, and the query fails. The
  event e6 with an unknown buyer id is not retained in the 12-month window,
  and beside e1, whose buyer is known, the query returns the row of b1.
\<close>

theorem dangling_reference_outcome_witness:
  "retained seedProperties (monthsAgo oct2025 12) blancoRd 1 (ev_e1\<lparr>e_buyer_id := ''b9''\<rparr>) \<and>
   List.find (\<lambda>b. b_id b = e_buyer_id (ev_e1\<lparr>e_buyer_id := ''b9''\<rparr>)) seedBuyers = None \<and>
   computeResults oct2025 seedBuyers seedProperties [ev_e1\<lparr>e_buyer_id := ''b9''\<rparr>] blancoRd 1 12 All
     = Inl TypeError \<and>
   list_all (resolved seedProperties) [ev_e1, ev_e6_b9] \<and>
   buyerKnown seedBuyers ev_e1 \<and>
   retained seedProperties (monthsAgo oct2025 12) blancoRd 1 ev_e6_b9 = False \<and>
   buyerKnown seedBuyers ev_e6_b9 = False \<and>
   (\<exists>rows. computeResults oct2025 seedBuyers seedProperties [ev_e1, ev_e6_b9] blancoRd 1 12 All
              = Inr rows)"
proof -
  have h1: "retained seedProperties (monthsAgo oct2025 12) blancoRd 1
              (ev_e1\<lparr>e_buyer_id := ''b9''\<rparr>)"
    by (simp add: retained_def eval_defs seed_defs date_defs distanceMiles_self)
  have h2: "List.find (\<lambda>b. b_id b = e_buyer_id (ev_e1\<lparr>e_buyer_id := ''b9''\<rparr>)) seedBuyers = None"
    by (simp add: seed_defs)
  from h1 h2 have bad: "\<exists>e\<in>set [ev_e1\<lparr>e_buyer_id := ''b9''\<rparr>]. \<not> resolved seedProperties e
       \<or> (retained seedProperties (monthsAgo oct2025 12) blancoRd 1 e
          \<and> List.find (\<lambda>b. b_id b = e_buyer_id e) seedBuyers = None)"
    by simp
  have g1: "list_all (resolved seedProperties) [ev_e1, ev_e6_b9]"
    by (simp add: resolved_def seed_defs example_defs)
  have g2: "buyerKnown seedBuyers ev_e1"
    by (simp add: buyerKnown_def protoKeys_def seed_defs)
  have g3: "retained seedProperties (monthsAgo oct2025 12) blancoRd 1 ev_e6_b9 = False"
    by (simp add: retained_def eval_defs seed_defs example_defs date_defs distanceMiles_self)
  have g4: "buyerKnown seedBuyers ev_e6_b9 = False"
    by (simp add: buyerKnown_def seed_defs example_defs)
  from g1 g2 g3 have good: "\<forall>e\<in>set [ev_e1, ev_e6_b9]. resolved seedProperties e
          \<and> (retained seedProperties (monthsAgo oct2025 12) blancoRd 1 e
              \<longrightarrow> buyerKnown seedBuyers e)"
    by simp
  from dangling_reference_outcome
         [where events = "[ev_e1\<lparr>e_buyer_id := ''b9''\<rparr>]" and properties = seedProperties
            and buyers = seedBuyers and clk = oct2025 and months = 12 and center = blancoRd
            and radiusMiles = 1 and buyerType = All]
       bad
  have f: "computeResults oct2025 seedBuyers seedProperties [ev_e1\<lparr>e_buyer_id := ''b9''\<rparr>]
             blancoRd 1 12 All = Inl TypeError"
    by blast
  from dangling_reference_outcome
         [where events = "[ev_e1, ev_e6_b9]" and properties = seedProperties
            and buyers = seedBuyers and clk = oct2025 and months = 12 and center = blancoRd
            and radiusMiles = 1 and buyerType = All]
       good
  have r: "\<exists>rows. computeResults oct2025 seedBuyers seedProperties [ev_e1, ev_e6_b9] blancoRd 1 12
                    All = Inr rows"
    by blast
  from h1 h2 f g1 g2 g3 g4 r show ?thesis by blast
qed

section \<open>The boundary ring\<close>

text \<open>
  C5. For every center, radius and segment count, the generated ring has
  exactly \<open>points + 1\<close> points: this half of the claim holds, and it is the
  theorem below. The other half, that the first point equals the last, holds
  for the exact formula and fails in the code: the last bearing is
  \<open>2 * Math.PI\<close>, whose sine in doubles is about -2.45e-16, and at longitude 0,
  latitude 0 and radius 2 the ring starts at longitude 0 and ends at longitude
  -7.09e-18. The loop runs to \<open>i <= points\<close> to close the ring and misses by
  that rounding.
\<close>

theorem boundary_point_count:
  "length (circlePolygon lon lat radiusMiles points) = points + 1"
  by (simp add: circlePolygon_def circleLoop_length)

end
